theory Spec2Isabelle
  imports Main "HOL-Library.Multiset"
begin

section \<open>JSON documents as the translation files hold them\<close>

text \<open>
  A parsed translation file is a JSON value. An object is the list of its own properties
  in enumeration order, each key once. A number is kept as the text that
  \<^verbatim>\<open>String(n)\<close> gives for it (number formatting is floating point and is not
  modelled further).
\<close>

datatype json =
    JNull
  | JBool bool
  | JNum string
  | JStr string
  | JArr "json list"
  | JObj "(string \<times> json) list"

text \<open>
  The outcomes of the nested-object surgery that are not a document: a \<^verbatim>\<open>TypeError\<close>
  thrown by the engine, and a walk that leaves the plain-object document (it enters an array,
  or \<^verbatim>\<open>Object.prototype\<close> through a \<^verbatim>\<open>__proto__\<close> segment that is not an own
  property), where the properties it touches are no longer those of the document.
\<close>

datatype error = TypeError | OffDocument

subsection \<open>Property names\<close>

text \<open>The names every plain object inherits from \<^verbatim>\<open>Object.prototype\<close>.\<close>

definition proto_names :: "string list" where
  "proto_names =
     [''constructor'', ''__defineGetter__'', ''__defineSetter__'', ''hasOwnProperty'',
      ''__lookupGetter__'', ''__lookupSetter__'', ''isPrototypeOf'', ''propertyIsEnumerable'',
      ''toString'', ''valueOf'', ''__proto__'', ''toLocaleString'']"

definition hasOwn :: "(string \<times> 'a) list \<Rightarrow> string \<Rightarrow> bool" where
  "hasOwn obj k = (k \<in> set (map fst obj))"

text \<open>\<^verbatim>\<open>k in obj\<close> for a plain object: own properties and inherited names.\<close>

definition js_in :: "string \<Rightarrow> (string \<times> 'a) list \<Rightarrow> bool" where
  "js_in k obj = (hasOwn obj k \<or> k \<in> set proto_names)"

text \<open>
  Integer-index keys (the canonical decimal text of a number below \<open>2^32 - 1\<close>) are
  enumerated first, in ascending numeric order; the other keys follow in insertion order.
\<close>

definition digit_val :: "char \<Rightarrow> nat" where
  "digit_val c = of_char c - 48"

definition is_digit :: "char \<Rightarrow> bool" where
  "is_digit c = (48 \<le> (of_char c :: nat) \<and> (of_char c :: nat) \<le> 57)"

definition index_val :: "string \<Rightarrow> nat" where
  "index_val s = foldl (\<lambda>n c. 10 * n + digit_val c) 0 s"

definition is_index :: "string \<Rightarrow> bool" where
  "is_index s =
     (s \<noteq> [] \<and> list_all is_digit s \<and> (hd s \<noteq> CHR ''0'' \<or> length s = 1)
      \<and> length s \<le> 10 \<and> index_val s < 4294967295)"

fun upd :: "string \<Rightarrow> 'a \<Rightarrow> (string \<times> 'a) list \<Rightarrow> (string \<times> 'a) list" where
  "upd k v [] = []"
| "upd k v ((k', v') # es) = (if k' = k then (k, v) # es else (k', v') # upd k v es)"

fun ins_index :: "string \<Rightarrow> 'a \<Rightarrow> (string \<times> 'a) list \<Rightarrow> (string \<times> 'a) list" where
  "ins_index k v [] = [(k, v)]"
| "ins_index k v ((k', v') # es) =
     (if is_index k' \<and> index_val k' < index_val k then (k', v') # ins_index k v es
      else (k, v) # (k', v') # es)"

text \<open>Defining or overwriting an own property.\<close>

definition obj_put :: "string \<Rightarrow> 'a \<Rightarrow> (string \<times> 'a) list \<Rightarrow> (string \<times> 'a) list" where
  "obj_put k v obj =
     (if hasOwn obj k then upd k v obj
      else if is_index k then ins_index k v obj
      else obj @ [(k, v)])"

text \<open>
  The assignment \<^verbatim>\<open>obj[k] = v\<close> on a plain object. When \<^verbatim>\<open>__proto__\<close> is not
  an own property the assignment runs the inherited setter and defines no property.
\<close>

definition js_assign :: "string \<Rightarrow> 'a \<Rightarrow> (string \<times> 'a) list \<Rightarrow> (string \<times> 'a) list" where
  "js_assign k v obj =
     (if k = ''__proto__'' \<and> \<not> hasOwn obj k then obj else obj_put k v obj)"

text \<open>\<^verbatim>\<open>delete obj[k]\<close> on a plain object.\<close>

definition js_delete :: "string \<Rightarrow> (string \<times> 'a) list \<Rightarrow> (string \<times> 'a) list" where
  "js_delete k obj = filter (\<lambda>e. fst e \<noteq> k) obj"

text \<open>\<^verbatim>\<open>dottedKey.split(".")\<close>: never empty; the empty string gives one empty part.\<close>

fun split_dot :: "string \<Rightarrow> string list" where
  "split_dot [] = [[]]"
| "split_dot (c # cs) =
     (if c = CHR ''.'' then [] # split_dot cs
      else (case split_dot cs of [] \<Rightarrow> [[c]] | p # ps \<Rightarrow> (c # p) # ps))"

subsection \<open>flattenJson\<close>

fun join_comma :: "string list \<Rightarrow> string" where
  "join_comma [] = []"
| "join_comma [s] = s"
| "join_comma (s # t # ss) = s @ '','' @ join_comma (t # ss)"

text \<open>\<^verbatim>\<open>String(v)\<close>; an array joins its elements with commas, null elements as empty.\<close>

fun js_String :: "json \<Rightarrow> string" where
  "js_String JNull = ''null''"
| "js_String (JBool b) = (if b then ''true'' else ''false'')"
| "js_String (JNum s) = s"
| "js_String (JStr s) = s"
| "js_String (JArr xs) =
     join_comma (map (\<lambda>x. case x of JNull \<Rightarrow> [] | _ \<Rightarrow> js_String x) xs)"
| "js_String (JObj es) = ''[object Object]''"

text \<open>\<^verbatim>\<open>String(v ?? "")\<close>.\<close>

definition leaf_string :: "json \<Rightarrow> string" where
  "leaf_string v = (case v of JNull \<Rightarrow> [] | _ \<Rightarrow> js_String v)"

type_synonym FlatJson = "(string \<times> string) list"

text \<open>\<^verbatim>\<open>Object.assign(result, sub)\<close>: each own entry of \<open>sub\<close> is assigned in order.\<close>

definition object_assign :: "(string \<times> 'a) list \<Rightarrow> (string \<times> 'a) list \<Rightarrow> (string \<times> 'a) list" where
  "object_assign result sub = foldl (\<lambda>r e. js_assign (fst e) (snd e) r) result sub"

definition fullKey_of :: "string \<Rightarrow> string \<Rightarrow> string" where
  "fullKey_of prefix k = (if prefix \<noteq> [] then prefix @ ''.'' @ k else k)"

fun flattenJson :: "json \<Rightarrow> string \<Rightarrow> FlatJson"
  and flattenEntries :: "(string \<times> json) list \<Rightarrow> string \<Rightarrow> FlatJson \<Rightarrow> FlatJson" where
  "flattenJson (JObj es) prefix = flattenEntries es prefix []"
| "flattenJson JNull prefix = []"
| "flattenJson (JBool b) prefix = []"
| "flattenJson (JNum n) prefix = []"
| "flattenJson (JStr s) prefix = []"
| "flattenJson (JArr xs) prefix = []"
| "flattenEntries [] prefix result = result"
| "flattenEntries ((k, v) # es) prefix result =
     flattenEntries es prefix
       (case v of
          JObj ces \<Rightarrow> object_assign result (flattenJson (JObj ces) (fullKey_of prefix k))
        | _ \<Rightarrow> js_assign (fullKey_of prefix k) (leaf_string v) result)"

subsection \<open>setNestedValue\<close>

text \<open>
  The walk of \<^verbatim>\<open>setNestedValue\<close> below one object: \<open>set_path parts value es\<close> is the
  object \<open>es\<close> after the call with the remaining \<open>parts\<close>. A missing, primitive or null
  property on the way is replaced by a fresh object.
\<close>

fun set_path :: "string list \<Rightarrow> string \<Rightarrow> (string \<times> json) list \<Rightarrow> error + (string \<times> json) list" where
  "set_path [] value es = Inr es"
| "set_path [p] value es = Inr (js_assign p (JStr value) es)"
| "set_path (p # q # ps) value es =
     (case map_of es p of
        Some (JObj ces) \<Rightarrow>
          (case set_path (q # ps) value ces of
             Inl e \<Rightarrow> Inl e
           | Inr ces' \<Rightarrow> Inr (upd p (JObj ces') es))
      | Some (JArr xs) \<Rightarrow> Inl OffDocument
      | Some _ \<Rightarrow>
          (case set_path (q # ps) value [] of
             Inl e \<Rightarrow> Inl e
           | Inr ces' \<Rightarrow> Inr (upd p (JObj ces') es))
      | None \<Rightarrow>
          (if p = ''__proto__'' then Inl OffDocument
           else (case set_path (q # ps) value [] of
             Inl e \<Rightarrow> Inl e
           | Inr ces' \<Rightarrow> Inr (obj_put p (JObj ces') es))))"

definition setNestedValue :: "json \<Rightarrow> string \<Rightarrow> string \<Rightarrow> error + json" where
  "setNestedValue obj dottedKey value =
     (case obj of
        JObj es \<Rightarrow> (case set_path (split_dot dottedKey) value es of
                     Inl e \<Rightarrow> Inl e | Inr es' \<Rightarrow> Inr (JObj es'))
      | JArr xs \<Rightarrow> Inl OffDocument
      | _ \<Rightarrow> Inl TypeError)"

subsection \<open>removeNestedKey\<close>

text \<open>
  The first loop of \<^verbatim>\<open>removeNestedKey\<close>: it walks to the object holding the leaf and
  pushes each \<open>(parent, key)\<close> on the stack (most recent first). \<open>None\<close> is the early
  \<^verbatim>\<open>return\<close>. \<^verbatim>\<open>typeof null\<close> is \<^verbatim>\<open>"object"\<close>, so the walk steps onto a
  null property, and the next \<^verbatim>\<open>in\<close> or \<^verbatim>\<open>delete\<close> throws.
\<close>

type_synonym stack = "((string \<times> json) list \<times> string) list"

fun walk :: "string list \<Rightarrow> (string \<times> json) list \<Rightarrow> stack
    \<Rightarrow> error + (stack \<times> (string \<times> json) list \<times> string) option" where
  "walk [] current st = Inr None"
| "walk [p] current st = Inr (Some (st, current, p))"
| "walk (p # q # ps) current st =
     (case map_of current p of
        Some (JObj ces) \<Rightarrow> walk (q # ps) ces ((current, p) # st)
      | Some (JArr xs) \<Rightarrow> Inl OffDocument
      | Some JNull \<Rightarrow> Inl TypeError
      | Some _ \<Rightarrow> Inr None
      | None \<Rightarrow> (if p = ''__proto__'' then Inl OffDocument else Inr None))"

text \<open>
  The source mutates the objects in place; here each parent is rebuilt around its changed
  child. \<open>rebuild\<close> is what remains after the \<^verbatim>\<open>break\<close>: every parent keeps its child.
\<close>

fun rebuild :: "stack \<Rightarrow> (string \<times> json) list \<Rightarrow> (string \<times> json) list" where
  "rebuild [] child = child"
| "rebuild ((parent, key) # st) child = rebuild st (upd key (JObj child) parent)"

text \<open>The second loop: bottom-up, an empty child is deleted from its parent, until one is not.\<close>

fun cleanup :: "stack \<Rightarrow> (string \<times> json) list \<Rightarrow> (string \<times> json) list" where
  "cleanup [] child = child"
| "cleanup ((parent, key) # st) child =
     (if length child = 0 then cleanup st (js_delete key parent)
      else rebuild st (upd key (JObj child) parent))"

definition removeNestedKey :: "json \<Rightarrow> string \<Rightarrow> error + json" where
  "removeNestedKey obj dottedKey =
     (case obj of
        JObj es \<Rightarrow>
          (case walk (split_dot dottedKey) es [] of
             Inl e \<Rightarrow> Inl e
           | Inr None \<Rightarrow> Inr (JObj es)
           | Inr (Some (st, current, leaf)) \<Rightarrow> Inr (JObj (cleanup st (js_delete leaf current))))
      | JNull \<Rightarrow> Inl TypeError
      | JArr xs \<Rightarrow> Inl OffDocument
      | _ \<Rightarrow> (if length (split_dot dottedKey) > 1 then Inl TypeError else Inl OffDocument))"

text \<open>
  The removal as the specification words it: delete the leaf, then prune every ancestor
  left empty, upward, stopping at the first ancestor that still has entries. \<open>None\<close>: the
  key's parent path does not lead through objects.
\<close>

fun prune_spec :: "string list \<Rightarrow> (string \<times> json) list \<Rightarrow> (string \<times> json) list option" where
  "prune_spec [] es = None"
| "prune_spec [p] es = Some (js_delete p es)"
| "prune_spec (p # q # ps) es =
     (case map_of es p of
        Some (JObj ces) \<Rightarrow>
          (case prune_spec (q # ps) ces of
             None \<Rightarrow> None
           | Some ces' \<Rightarrow> Some (if ces' = [] then js_delete p es else upd p (JObj ces') es))
      | _ \<Rightarrow> None)"

subsection \<open>sortDeep\<close>

text \<open>
  \<open>le a b\<close> stands for \<^verbatim>\<open>a.localeCompare(b, undefined, {sensitivity: "base"}) <= 0\<close>;
  the collation itself is a parameter. \<^verbatim>\<open>Array.prototype.sort\<close> is stable: it is the
  insertion sort below.
\<close>

fun insert_by :: "('a \<Rightarrow> 'a \<Rightarrow> bool) \<Rightarrow> 'a \<Rightarrow> 'a list \<Rightarrow> 'a list" where
  "insert_by le x [] = [x]"
| "insert_by le x (y # ys) = (if le x y then x # y # ys else y # insert_by le x ys)"

definition sort_by :: "('a \<Rightarrow> 'a \<Rightarrow> bool) \<Rightarrow> 'a list \<Rightarrow> 'a list" where
  "sort_by le xs = foldr (insert_by le) xs []"

definition key_le :: "(string \<Rightarrow> string \<Rightarrow> bool) \<Rightarrow> string \<times> 'a \<Rightarrow> string \<times> 'a \<Rightarrow> bool" where
  "key_le le a b = le (fst a) (fst b)"

text \<open>
  The loop of \<^verbatim>\<open>sortDeep\<close>: the keys in sorted order, each assigned to the fresh
  object \<^verbatim>\<open>sorted\<close>.
\<close>

definition build_sorted :: "(string \<times> 'a) list \<Rightarrow> (string \<times> 'a) list" where
  "build_sorted xs = foldl (\<lambda>sorted e. js_assign (fst e) (snd e) sorted) [] xs"

fun sortDeep :: "(string \<Rightarrow> string \<Rightarrow> bool) \<Rightarrow> (string \<times> json) list \<Rightarrow> (string \<times> json) list"
  and sortValues :: "(string \<Rightarrow> string \<Rightarrow> bool) \<Rightarrow> (string \<times> json) list \<Rightarrow> (string \<times> json) list"
  and sortValue :: "(string \<Rightarrow> string \<Rightarrow> bool) \<Rightarrow> json \<Rightarrow> json" where
  "sortDeep le es = build_sorted (sort_by (key_le le) (sortValues le es))"
| "sortValues le [] = []"
| "sortValues le ((k, v) # es) = (k, sortValue le v) # sortValues le es"
| "sortValue le (JObj ces) = JObj (sortDeep le ces)"
| "sortValue le JNull = JNull"
| "sortValue le (JBool b) = JBool b"
| "sortValue le (JNum n) = JNum n"
| "sortValue le (JStr s) = JStr s"
| "sortValue le (JArr xs) = JArr xs"

section \<open>Settings and the file system\<close>

record TranslationFile =
  absolutePath :: string
  namespace :: string

record Language =
  code :: string
  files :: "TranslationFile list"

text \<open>Any \<^verbatim>\<open>folderStructure\<close> other than \<^verbatim>\<open>"flat"\<close> takes the namespaced branches.\<close>

datatype FolderStructure = Namespaced | Flat

record AppSettings =
  rootFolder :: "string option"
  languages :: "Language list"
  folderStructure :: FolderStructure

text \<open>A file on disk: text that \<^verbatim>\<open>JSON.parse\<close> accepts, or text it rejects.\<close>

datatype content = Json json | Garbage

text \<open>
  Modelled from the spec: \<^verbatim>\<open>loadSettings\<close> and \<^verbatim>\<open>saveSettings\<close> (module
  \<^verbatim>\<open>../settings\<close>) are a persisted settings document, read fresh at the start of an
  operation and saved after each structural change. The world holds that document next to
  the files and directories on disk. Writes and \<^verbatim>\<open>mkdir\<close> are taken to succeed, and
  \<^verbatim>\<open>JSON.parse(JSON.stringify(d))\<close> is taken to be \<open>d\<close>.
\<close>

record world =
  settings :: AppSettings
  disk :: "string \<Rightarrow> content option"
  dirs :: "string set"

text \<open>\<^verbatim>\<open>path.join\<close>, without its normalisation of \<^verbatim>\<open>.\<close>, \<^verbatim>\<open>..\<close> and doubled separators.\<close>

definition path_join :: "string \<Rightarrow> string \<Rightarrow> string" where
  "path_join a b = a @ ''/'' @ b"

definition existsSync :: "world \<Rightarrow> string \<Rightarrow> bool" where
  "existsSync w p = (disk w p \<noteq> None \<or> p \<in> dirs w)"

definition readJsonFile :: "world \<Rightarrow> string \<Rightarrow> json" where
  "readJsonFile w p = (case disk w p of Some (Json j) \<Rightarrow> j | _ \<Rightarrow> JObj [])"

text \<open>The decimal text of an array index.\<close>

function string_of_nat :: "nat \<Rightarrow> string" where
  "string_of_nat n =
     (if n < 10 then [char_of (48 + n)]
      else string_of_nat (n div 10) @ [char_of (48 + n mod 10)])"
  by pat_completeness auto
termination
  by (relation "measure id") auto

declare string_of_nat.simps [simp del]

text \<open>\<^verbatim>\<open>Object.keys(xs)\<close> with the elements, for an array or the characters of a string.\<close>

definition indexed :: "'a list \<Rightarrow> (string \<times> 'a) list" where
  "indexed xs = map (\<lambda>(i, x). (string_of_nat i, x)) (enumerate 0 xs)"

text \<open>
  \<^verbatim>\<open>sortDeep(json)\<close> on the root that \<^verbatim>\<open>writeJsonFile\<close> receives. Whatever the root
  is, the result is a fresh plain object built from \<^verbatim>\<open>Object.keys(root)\<close>: the indices of
  an array or of a string, nothing for a number or a boolean; \<^verbatim>\<open>Object.keys(null)\<close>
  throws.
\<close>

definition sortDeep_root :: "(string \<Rightarrow> string \<Rightarrow> bool) \<Rightarrow> json \<Rightarrow> error + json" where
  "sortDeep_root le j =
     (case j of
        JObj es \<Rightarrow> Inr (JObj (sortDeep le es))
      | JArr xs \<Rightarrow> Inr (JObj (sortDeep le (indexed xs)))
      | JStr s \<Rightarrow> Inr (JObj (sortDeep le (indexed (map (\<lambda>c. JStr [c]) s))))
      | JNum n \<Rightarrow> Inr (JObj [])
      | JBool b \<Rightarrow> Inr (JObj [])
      | JNull \<Rightarrow> Inl TypeError)"

definition writeJsonFile :: "(string \<Rightarrow> string \<Rightarrow> bool) \<Rightarrow> world \<Rightarrow> string \<Rightarrow> json \<Rightarrow> error + world" where
  "writeJsonFile le w p j =
     (case sortDeep_root le j of
        Inl e \<Rightarrow> Inl e
      | Inr d \<Rightarrow> Inr (w\<lparr>disk := (disk w)(p \<mapsto> Json d)\<rparr>))"

fun find_first :: "('a \<Rightarrow> bool) \<Rightarrow> 'a list \<Rightarrow> 'a option" where
  "find_first P [] = None"
| "find_first P (x # xs) = (if P x then Some x else find_first P xs)"

text \<open>\<^verbatim>\<open>lang.files.push(file)\<close> on the language that \<^verbatim>\<open>find\<close> returned: the first with the code.\<close>

fun push_file :: "string \<Rightarrow> TranslationFile \<Rightarrow> Language list \<Rightarrow> Language list" where
  "push_file c f [] = []"
| "push_file c f (l # ls) =
     (if code l = c then l\<lparr>files := files l @ [f]\<rparr> # ls else l # push_file c f ls)"

definition ensureFile :: "world \<Rightarrow> string \<Rightarrow> string \<Rightarrow> TranslationFile option \<times> world" where
  "ensureFile w langCode ns =
     (case find_first (\<lambda>l. code l = langCode) (languages (settings w)) of
        None \<Rightarrow> (None, w)
      | Some lang \<Rightarrow>
          (case find_first (\<lambda>f. namespace f = ns) (files lang) of
             Some file \<Rightarrow> (Some file, w)
           | None \<Rightarrow>
               (case rootFolder (settings w) of
                  None \<Rightarrow> (None, w)
                | Some root \<Rightarrow>
                    if root = [] then (None, w)
                    else
                      let flat = (folderStructure (settings w) = Flat);
                          dirPath = path_join root langCode;
                          filePath = (if flat then path_join root (langCode @ ''.json'')
                                      else path_join dirPath (ns @ ''.json''));
                          w1 = (if \<not> flat \<and> \<not> existsSync w dirPath
                                then w\<lparr>dirs := insert dirPath (dirs w)\<rparr> else w);
                          w2 = (if \<not> existsSync w1 filePath
                                then w1\<lparr>disk := (disk w1)(filePath \<mapsto> Json (JObj []))\<rparr> else w1);
                          file = \<lparr>absolutePath = filePath, namespace = ns\<rparr>
                      in (Some file,
                          w2\<lparr>settings := (settings w2)
                               \<lparr>languages := push_file langCode file (languages (settings w2))\<rparr>\<rparr>))))"

section \<open>The mutation engine\<close>

text \<open>
  A handler runs its loop over \<^verbatim>\<open>settings.languages\<close> as loaded; \<^verbatim>\<open>ensureFile\<close>
  pushes onto a language's file list but never changes the language list itself, so the loop
  runs over the codes. The result carries the world reached and the error that stopped the
  handler, if one did (what was written before it stays written).
\<close>

definition addKey_step :: "(string \<Rightarrow> string \<Rightarrow> bool) \<Rightarrow> string \<Rightarrow> string \<Rightarrow> string \<Rightarrow> world \<Rightarrow> world \<times> error option" where
  "addKey_step le ns key langCode w =
     (case ensureFile w langCode ns of
        (None, w1) \<Rightarrow> (w1, None)
      | (Some file, w1) \<Rightarrow>
          let json = readJsonFile w1 (absolutePath file);
              flat = flattenJson json []
          in if \<not> js_in key flat then
               (case setNestedValue json key [] of
                  Inl e \<Rightarrow> (w1, Some e)
                | Inr json' \<Rightarrow>
                    (case writeJsonFile le w1 (absolutePath file) json' of
                       Inl e \<Rightarrow> (w1, Some e)
                     | Inr w2 \<Rightarrow> (w2, None)))
             else (w1, None))"

fun addKey_loop :: "(string \<Rightarrow> string \<Rightarrow> bool) \<Rightarrow> string \<Rightarrow> string \<Rightarrow> string list \<Rightarrow> world \<Rightarrow> world \<times> error option" where
  "addKey_loop le ns key [] w = (w, None)"
| "addKey_loop le ns key (c # cs) w =
     (case addKey_step le ns key c w of
        (w1, Some e) \<Rightarrow> (w1, Some e)
      | (w1, None) \<Rightarrow> addKey_loop le ns key cs w1)"

definition addKey :: "(string \<Rightarrow> string \<Rightarrow> bool) \<Rightarrow> string \<Rightarrow> string \<Rightarrow> world \<Rightarrow> world \<times> error option" where
  "addKey le ns key w = addKey_loop le ns key (map code (languages (settings w))) w"

definition updateKey :: "(string \<Rightarrow> string \<Rightarrow> bool) \<Rightarrow> string \<Rightarrow> string \<Rightarrow> string \<Rightarrow> string \<Rightarrow> world \<Rightarrow> world \<times> error option" where
  "updateKey le ns key langCode value w =
     (case ensureFile w langCode ns of
        (None, w1) \<Rightarrow> (w1, None)
      | (Some file, w1) \<Rightarrow>
          (case setNestedValue (readJsonFile w1 (absolutePath file)) key value of
             Inl e \<Rightarrow> (w1, Some e)
           | Inr json' \<Rightarrow>
               (case writeJsonFile le w1 (absolutePath file) json' of
                  Inl e \<Rightarrow> (w1, Some e)
                | Inr w2 \<Rightarrow> (w2, None))))"

fun removeKey_loop :: "(string \<Rightarrow> string \<Rightarrow> bool) \<Rightarrow> string \<Rightarrow> string \<Rightarrow> Language list \<Rightarrow> world \<Rightarrow> world \<times> error option" where
  "removeKey_loop le ns key [] w = (w, None)"
| "removeKey_loop le ns key (lang # langs) w =
     (case find_first (\<lambda>f. namespace f = ns) (files lang) of
        None \<Rightarrow> removeKey_loop le ns key langs w
      | Some file \<Rightarrow>
          (case removeNestedKey (readJsonFile w (absolutePath file)) key of
             Inl e \<Rightarrow> (w, Some e)
           | Inr json' \<Rightarrow>
               (case writeJsonFile le w (absolutePath file) json' of
                  Inl e \<Rightarrow> (w, Some e)
                | Inr w1 \<Rightarrow> removeKey_loop le ns key langs w1)))"

definition removeKey :: "(string \<Rightarrow> string \<Rightarrow> bool) \<Rightarrow> string \<Rightarrow> string \<Rightarrow> world \<Rightarrow> world \<times> error option" where
  "removeKey le ns key w = removeKey_loop le ns key (languages (settings w)) w"

section \<open>The key-intake HTTP endpoint\<close>

datatype http_method = GET | POST | OPTIONS | OtherMethod string

text \<open>
  A request as \<^verbatim>\<open>handleRequest\<close> sees it once the body has arrived: the method, the URL
  (\<^verbatim>\<open>req.url\<close> may be undefined) and what \<^verbatim>\<open>JSON.parse(body)\<close> gives, \<open>None\<close> when it
  throws.
\<close>

record request =
  req_method :: http_method
  req_url :: "string option"
  req_body :: "json option"

text \<open>What the handler answers; \<open>Escaped\<close> when the surgery left the document (see \<open>OffDocument\<close>).\<close>

datatype response = Response nat "json option" | Escaped

fun split_slash :: "string \<Rightarrow> string list" where
  "split_slash [] = [[]]"
| "split_slash (c # cs) =
     (if c = CHR ''/'' then [] # split_slash cs
      else (case split_slash cs of [] \<Rightarrow> [[c]] | p # ps \<Rightarrow> (c # p) # ps))"

text \<open>The match of \<^verbatim>\<open>/^\/locales\/([^/]+)\/([^/]+)$/\<close>: the two captured groups.\<close>

definition match_locales :: "string \<Rightarrow> (string \<times> string) option" where
  "match_locales url =
     (if take 9 url = ''/locales/'' then
        (case split_slash (drop 9 url) of
           [lng, ns] \<Rightarrow> if lng \<noteq> [] \<and> ns \<noteq> [] then Some (lng, ns) else None
         | _ \<Rightarrow> None)
      else None)"

text \<open>
  The destructuring \<^verbatim>\<open>const {key, defaultValue} = JSON.parse(body)\<close>: it throws on
  \<^verbatim>\<open>null\<close>; a property the value does not have is undefined (\<open>None\<close>).
\<close>

definition body_field :: "json \<Rightarrow> string \<Rightarrow> error + json option" where
  "body_field v name =
     (case v of
        JNull \<Rightarrow> Inl TypeError
      | JObj es \<Rightarrow> Inr (map_of es name)
      | _ \<Rightarrow> Inr None)"

text \<open>
  Converting a parsed value to a string calls its \<^verbatim>\<open>toString\<close>. An object that has an own
  property \<^verbatim>\<open>toString\<close> (a JSON value, never a function) has no callable one, and the
  inherited \<^verbatim>\<open>valueOf\<close> returns the object itself, so the conversion throws; an array
  converts each of its elements.
\<close>

fun no_primitive :: "json \<Rightarrow> bool" where
  "no_primitive (JObj es) = hasOwn es ''toString''"
| "no_primitive (JArr xs) = (\<exists>x \<in> set xs. no_primitive x)"
| "no_primitive v = False"

text \<open>The property key that \<^verbatim>\<open>key in flat\<close> tests for whatever \<^verbatim>\<open>key\<close> is.\<close>

definition property_key :: "json option \<Rightarrow> error + string" where
  "property_key k =
     (case k of
        None \<Rightarrow> Inr ''undefined''
      | Some v \<Rightarrow> if no_primitive v then Inl TypeError else Inr (js_String v))"

text \<open>\<^verbatim>\<open>setNestedValue(json, key, value)\<close> with the key as received: only a string has \<^verbatim>\<open>split\<close>.\<close>

definition set_received :: "json \<Rightarrow> json option \<Rightarrow> string \<Rightarrow> error + json" where
  "set_received json k value =
     (case k of Some (JStr s) \<Rightarrow> setNestedValue json s value | _ \<Rightarrow> Inl TypeError)"

text \<open>
  The state of the handler's \<^verbatim>\<open>try\<close> block: the world, and \<^verbatim>\<open>addedKeys\<close> (the keys as
  received).
\<close>

fun intake_loop :: "(string \<Rightarrow> string \<Rightarrow> bool) \<Rightarrow> string \<Rightarrow> json option \<Rightarrow> string list
    \<Rightarrow> world \<times> json option list \<Rightarrow> (world \<times> json option list) \<times> error option" where
  "intake_loop le ns k [] (w, added) = ((w, added), None)"
| "intake_loop le ns k (c # cs) (w, added) =
     (case ensureFile w c ns of
        (None, w1) \<Rightarrow> intake_loop le ns k cs (w1, added)
      | (Some file, w1) \<Rightarrow>
          let json = readJsonFile w1 (absolutePath file);
              flat = flattenJson json []
          in (case property_key k of
                Inl e \<Rightarrow> ((w1, added), Some e)
              | Inr name \<Rightarrow>
                  if \<not> js_in name flat then
                    (case set_received json k [] of
                       Inl e \<Rightarrow> ((w1, added), Some e)
                     | Inr json' \<Rightarrow>
                         (case writeJsonFile le w1 (absolutePath file) json' of
                            Inl e \<Rightarrow> ((w1, added), Some e)
                          | Inr w2 \<Rightarrow>
                              intake_loop le ns k cs
                                (w2, if k \<in> set added then added else added @ [k])))
                  else intake_loop le ns k cs (w1, added)))"

text \<open>The write of the default value for the requesting language.\<close>

definition intake_default :: "(string \<Rightarrow> string \<Rightarrow> bool) \<Rightarrow> string \<Rightarrow> string \<Rightarrow> json option \<Rightarrow> json option
    \<Rightarrow> world \<Rightarrow> world \<times> error option" where
  "intake_default le langCode ns k defaultValue w =
     (case defaultValue of
        Some (JStr d) \<Rightarrow>
          if d \<noteq> [] then
            (case ensureFile w langCode ns of
               (None, w1) \<Rightarrow> (w1, None)
             | (Some file, w1) \<Rightarrow>
                 (case set_received (readJsonFile w1 (absolutePath file)) k d of
                    Inl e \<Rightarrow> (w1, Some e)
                  | Inr json' \<Rightarrow>
                      (case writeJsonFile le w1 (absolutePath file) json' of
                         Inl e \<Rightarrow> (w1, Some e)
                       | Inr w2 \<Rightarrow> (w2, None))))
          else (w, None)
      | _ \<Rightarrow> (w, None))"

text \<open>A \<open>keys received\<close> notification: the namespace and the keys added.\<close>

type_synonym notification = "string \<times> json option list"

definition ok_body :: json where
  "ok_body = JObj [(''ok'', JBool True)]"

definition not_found_body :: json where
  "not_found_body = JObj [(''error'', JStr ''Not found. Use POST /locales/:lng/:ns'')]"

definition invalid_body :: json where
  "invalid_body = JObj [(''error'', JStr ''Invalid JSON body'')]"

definition caught :: "world \<Rightarrow> error \<Rightarrow> world \<times> notification list \<times> response" where
  "caught w e = (case e of TypeError \<Rightarrow> (w, [], Response 400 (Some invalid_body))
                         | OffDocument \<Rightarrow> (w, [], Escaped))"

text \<open>\<^verbatim>\<open>req.url?.match(...)\<close>.\<close>

definition route :: "request \<Rightarrow> (string \<times> string) option" where
  "route req = (case req_url req of None \<Rightarrow> None | Some url \<Rightarrow> match_locales url)"

definition handleRequest :: "(string \<Rightarrow> string \<Rightarrow> bool) \<Rightarrow> request \<Rightarrow> world
    \<Rightarrow> world \<times> notification list \<times> response" where
  "handleRequest le req w =
     (if req_method req = OPTIONS then (w, [], Response 204 None)
      else
        (case route req of
           None \<Rightarrow> (w, [], Response 404 (Some not_found_body))
         | Some (langCode, ns) \<Rightarrow>
             if req_method req \<noteq> POST then (w, [], Response 404 (Some not_found_body))
             else
               (case req_body req of
                  None \<Rightarrow> (w, [], Response 400 (Some invalid_body))
                | Some parsed \<Rightarrow>
                    (case body_field parsed ''key'' of
                       Inl e \<Rightarrow> caught w e
                     | Inr k \<Rightarrow>
                    (case body_field parsed ''defaultValue'' of
                       Inl e \<Rightarrow> caught w e
                     | Inr defaultValue \<Rightarrow>
                    (case intake_loop le ns k (map code (languages (settings w))) (w, []) of
                       ((w1, added), Some e) \<Rightarrow> caught w1 e
                     | ((w1, added), None) \<Rightarrow>
                    (case intake_default le langCode ns k defaultValue w1 of
                       (w2, Some e) \<Rightarrow> caught w2 e
                     | (w2, None) \<Rightarrow>
                         (w2, (if length added > 0 then [(ns, added)] else []),
                          Response 200 (Some ok_body)))))))))"

section \<open>Importing a root folder\<close>

datatype entry_kind = Directory | RegularFile | OtherEntry

record dirent =
  d_name :: string
  d_kind :: entry_kind

text \<open>What the open-directory dialog returned.\<close>

record dialog_result =
  canceled :: bool
  filePaths :: "string list"

definition is_lower :: "char \<Rightarrow> bool" where
  "is_lower c = (97 \<le> (of_char c :: nat) \<and> (of_char c :: nat) \<le> 122)"

definition is_upper :: "char \<Rightarrow> bool" where
  "is_upper c = (65 \<le> (of_char c :: nat) \<and> (of_char c :: nat) \<le> 90)"

text \<open>\<^verbatim>\<open>/^[a-z]{2}-[A-Z]{2}$/\<close>\<close>

definition LOCALE_REGEX :: "string \<Rightarrow> bool" where
  "LOCALE_REGEX name =
     (case name of
        [a, b, d, e, f] \<Rightarrow> is_lower a \<and> is_lower b \<and> d = CHR ''-'' \<and> is_upper e \<and> is_upper f
      | _ \<Rightarrow> False)"

text \<open>\<^verbatim>\<open>/^[a-z]{2}-[A-Z]{2}\.json$/\<close>\<close>

definition LOCALE_JSON_REGEX :: "string \<Rightarrow> bool" where
  "LOCALE_JSON_REGEX name = (LOCALE_REGEX (take 5 name) \<and> drop 5 name = ''.json'')"

definition DEFAULT_NAMESPACE :: string where
  "DEFAULT_NAMESPACE = ''default''"

definition endsWith :: "string \<Rightarrow> string \<Rightarrow> bool" where
  "endsWith name suffix =
     (length suffix \<le> length name \<and> drop (length name - length suffix) name = suffix)"

text \<open>\<^verbatim>\<open>path.basename(name, ".json")\<close> for a directory entry's name (it holds no separator).\<close>

definition basename_json :: "string \<Rightarrow> string" where
  "basename_json name =
     (if endsWith name ''.json'' then take (length name - 5) name else name)"

text \<open>
  \<open>readdir\<close> is the directory listing of the file system (\<^verbatim>\<open>fs.readdirSync\<close>), a
  parameter of the import.
\<close>

definition scanJsonFiles :: "(string \<Rightarrow> dirent list) \<Rightarrow> string \<Rightarrow> TranslationFile list" where
  "scanJsonFiles readdir dirPath =
     map (\<lambda>name. \<lparr>absolutePath = path_join dirPath name, namespace = basename_json name\<rparr>)
       (filter (\<lambda>name. endsWith name ''.json'') (map d_name (readdir dirPath)))"

text \<open>The first loop: locale subdirectories that hold a JSON file, pushed onto the languages.\<close>

fun scan_namespaced :: "(string \<Rightarrow> dirent list) \<Rightarrow> string \<Rightarrow> dirent list \<Rightarrow> Language list \<Rightarrow> Language list" where
  "scan_namespaced readdir rootPath [] langs = langs"
| "scan_namespaced readdir rootPath (entry # entries) langs =
     (if d_kind entry \<noteq> Directory \<or> \<not> LOCALE_REGEX (d_name entry)
      then scan_namespaced readdir rootPath entries langs
      else
        (let fs = scanJsonFiles readdir (path_join rootPath (d_name entry))
         in if length fs = 0 then scan_namespaced readdir rootPath entries langs
            else scan_namespaced readdir rootPath entries
                   (langs @ [\<lparr>code = d_name entry, files = fs\<rparr>])))"

text \<open>The second loop: locale-named JSON files in the root.\<close>

fun scan_flat :: "string \<Rightarrow> dirent list \<Rightarrow> Language list \<Rightarrow> Language list" where
  "scan_flat rootPath [] langs = langs"
| "scan_flat rootPath (entry # entries) langs =
     (if d_kind entry \<noteq> RegularFile \<or> \<not> LOCALE_JSON_REGEX (d_name entry)
      then scan_flat rootPath entries langs
      else scan_flat rootPath entries
             (langs @ [\<lparr>code = basename_json (d_name entry),
                        files = [\<lparr>absolutePath = path_join rootPath (d_name entry),
                                  namespace = DEFAULT_NAMESPACE\<rparr>]\<rparr>]))"

definition importFolder :: "(string \<Rightarrow> dirent list) \<Rightarrow> dialog_result \<Rightarrow> world \<Rightarrow> AppSettings option \<times> world" where
  "importFolder readdir result w =
     (if canceled result \<or> length (filePaths result) = 0 then (None, w)
      else
        let rootPath = hd (filePaths result);
            entries = readdir rootPath;
            s0 = (settings w)\<lparr>rootFolder := Some rootPath, languages := []\<rparr>;
            s1 = s0\<lparr>languages := scan_namespaced readdir rootPath entries (languages s0)\<rparr>;
            s2 = (if length (languages s1) > 0 then s1\<lparr>folderStructure := Namespaced\<rparr>
                  else
                    (let s3 = s1\<lparr>languages := scan_flat rootPath entries (languages s1)\<rparr>
                     in s3\<lparr>folderStructure :=
                            (if length (languages s3) > 0 then Flat else Namespaced)\<rparr>))
        in (Some s2, w\<lparr>settings := s2\<rparr>))"

text \<open>
  The detection as the specification words it. A namespace file of a directory is a regular
  file named \<open><namespace>.json\<close>; the namespaced scan gives one language per
  locale-named subdirectory that contains at least one, with one File per such file. The
  flat scan gives one language per top-level file named \<open><locale>.json\<close>, with the
  single namespace \<open>default\<close>.
\<close>

definition strip_json :: "string \<Rightarrow> string option" where
  "strip_json name =
     (case rev name of
        c5 # c4 # c3 # c2 # c1 # r \<Rightarrow>
          if [c1, c2, c3, c4, c5] = ''.json'' then Some (rev r) else None
      | _ \<Rightarrow> None)"

definition namespace_files :: "(string \<Rightarrow> dirent list) \<Rightarrow> string \<Rightarrow> TranslationFile list" where
  "namespace_files readdir dir =
     concat (map (\<lambda>x. case strip_json (d_name x) of
                         Some ns \<Rightarrow>
                           if d_kind x = RegularFile
                           then [\<lparr>absolutePath = path_join dir (ns @ ''.json''), namespace = ns\<rparr>]
                           else []
                       | None \<Rightarrow> [])
               (readdir dir))"

definition namespaced_languages :: "(string \<Rightarrow> dirent list) \<Rightarrow> string \<Rightarrow> Language list" where
  "namespaced_languages readdir rootPath =
     map (\<lambda>e. \<lparr>code = d_name e, files = namespace_files readdir (path_join rootPath (d_name e))\<rparr>)
       (filter (\<lambda>e. d_kind e = Directory \<and> LOCALE_REGEX (d_name e)
                  \<and> namespace_files readdir (path_join rootPath (d_name e)) \<noteq> [])
          (readdir rootPath))"

definition flat_languages :: "(string \<Rightarrow> dirent list) \<Rightarrow> string \<Rightarrow> Language list" where
  "flat_languages readdir rootPath =
     map (\<lambda>e. \<lparr>code = take 5 (d_name e),
               files = [\<lparr>absolutePath = path_join rootPath (d_name e), namespace = ''default''\<rparr>]\<rparr>)
       (filter (\<lambda>e. d_kind e = RegularFile \<and> LOCALE_JSON_REGEX (d_name e)) (readdir rootPath))"

section \<open>Concrete inputs\<close>

text \<open>
  A stand-in collation for concrete runs: the ASCII order on the strings with upper-case
  letters folded to lower case.
\<close>

fun lex_le :: "nat list \<Rightarrow> nat list \<Rightarrow> bool" where
  "lex_le [] ys = True"
| "lex_le (x # xs) [] = False"
| "lex_le (x # xs) (y # ys) = (x < y \<or> (x = y \<and> lex_le xs ys))"

definition fold_case :: "char \<Rightarrow> nat" where
  "fold_case c = (if 65 \<le> (of_char c :: nat) \<and> (of_char c :: nat) \<le> 90
                  then of_char c + 32 else of_char c)"

definition ascii_le :: "string \<Rightarrow> string \<Rightarrow> bool" where
  "ascii_le a b = lex_le (map fold_case a) (map fold_case b)"

definition no_settings :: AppSettings where
  "no_settings = \<lparr>rootFolder = None, languages = [], folderStructure = Namespaced\<rparr>"

definition empty_world :: world where
  "empty_world = \<lparr>settings = no_settings, disk = Map.empty, dirs = {}\<rparr>"

text \<open>One namespaced language whose file for \<open>common\<close> holds the empty document.\<close>

definition one_language_world :: world where
  "one_language_world =
     \<lparr>settings = \<lparr>rootFolder = Some ''/r'',
                   languages = [\<lparr>code = ''en-US'',
                                 files = [\<lparr>absolutePath = ''/r/en-US/common.json'',
                                           namespace = ''common''\<rparr>]\<rparr>],
                   folderStructure = Namespaced\<rparr>,
      disk = [''/r/en-US/common.json'' \<mapsto> Json (JObj [])],
      dirs = {''/r'', ''/r/en-US''}\<rparr>"




definition example_readdir :: "string \<Rightarrow> dirent list" where
  "example_readdir p =
     (if p = ''/proj'' then
        [\<lparr>d_name = ''en-US'', d_kind = Directory\<rparr>, \<lparr>d_name = ''fr-FR'', d_kind = Directory\<rparr>,
         \<lparr>d_name = ''README.md'', d_kind = RegularFile\<rparr>]
      else if p = ''/proj/en-US'' \<or> p = ''/proj/fr-FR'' then
        [\<lparr>d_name = ''common.json'', d_kind = RegularFile\<rparr>]
      else if p = ''/flat'' then
        [\<lparr>d_name = ''en-US.json'', d_kind = RegularFile\<rparr>,
         \<lparr>d_name = ''fr-FR.json'', d_kind = RegularFile\<rparr>,
         \<lparr>d_name = ''notes.txt'', d_kind = RegularFile\<rparr>]
      else [])"

text \<open>A stand-in for the default comparison: ties of \<open>ascii_le\<close> are broken by the character codes.\<close>

text \<open>A locale directory that holds only a subdirectory named \<open>d.json\<close>, next to a flat file.\<close>

definition odd_readdir :: "string \<Rightarrow> dirent list" where
  "odd_readdir p =
     (if p = ''/odd'' then
        [\<lparr>d_name = ''en-US'', d_kind = Directory\<rparr>, \<lparr>d_name = ''en-US.json'', d_kind = RegularFile\<rparr>]
      else if p = ''/odd/en-US'' then [\<lparr>d_name = ''d.json'', d_kind = Directory\<rparr>]
      else [])"

definition ascii_le2 :: "string \<Rightarrow> string \<Rightarrow> bool" where
  "ascii_le2 a b =
     (ascii_le a b \<and> (ascii_le b a \<longrightarrow> lex_le (map of_char a) (map of_char b)))"

section \<open>The key tree of the UI\<close>

datatype TreeNode =
  TreeNode (segment: string) (fullKey: string) (children: "TreeNode list")
    (vals: "(string \<times> string option) list option")

lemma set_insert_by [simp]: "set (insert_by le x ys) = insert x (set ys)"
  by (induction ys) auto

lemma set_sort_by [simp]: "set (sort_by le xs) = set xs"
  by (induction xs) (auto simp: sort_by_def)

text \<open>
  \<open>le2 a b\<close> stands for \<^verbatim>\<open>a.localeCompare(b) <= 0\<close> with the default options.
  \<^verbatim>\<open>sortTree\<close> sorts the nodes, then the children of each.
\<close>

function sortTree :: "(string \<Rightarrow> string \<Rightarrow> bool) \<Rightarrow> TreeNode list \<Rightarrow> TreeNode list" where
  "sortTree le2 nodes =
     map (\<lambda>n. TreeNode (segment n) (fullKey n) (sortTree le2 (children n)) (vals n))
       (sort_by (\<lambda>a b. le2 (segment a) (segment b)) nodes)"
  by pat_completeness auto
termination
proof (relation "measure (\<lambda>(le2, nodes). size_list size nodes)")
  show "wf (measure (\<lambda>(le2, nodes). size_list size nodes))" by simp
next
  fix le2 :: "string \<Rightarrow> string \<Rightarrow> bool" and nodes :: "TreeNode list" and n
  assume "n \<in> set (sort_by (\<lambda>a b. le2 (segment a) (segment b)) nodes)"
  then have "n \<in> set nodes" by simp
  then have "size n \<le> size_list size nodes" by (simp add: size_list_estimation')
  moreover have "size_list size (children n) < size n" by (cases n) simp
  ultimately show "((le2, children n), (le2, nodes)) \<in> measure (\<lambda>(le2, nodes). size_list size nodes)"
    by simp
qed

declare sortTree.simps [simp del]

definition example_tree :: "TreeNode list" where
  "example_tree =
     [TreeNode ''menu'' ''menu''
        [TreeNode ''save'' ''menu.save'' [] (Some [(''en-US'', Some ''Save'')]),
         TreeNode ''Open'' ''menu.Open'' [] (Some [(''en-US'', None)]),
         TreeNode ''open'' ''menu.open'' [] (Some [(''en-US'', Some ''Open'')])] None,
      TreeNode ''app'' ''app'' [] (Some [(''en-US'', Some ''KeyHub'')])]"

text \<open>What the proofs ask of a collation: any two strings compare, and the order is transitive.\<close>

definition total_preorder :: "('a \<Rightarrow> 'a \<Rightarrow> bool) \<Rightarrow> bool" where
  "total_preorder le = ((\<forall>a b. le a b \<or> le b a) \<and> (\<forall>a b c. le a b \<longrightarrow> le b c \<longrightarrow> le a c))"

text \<open>Ordered at every depth.\<close>

fun children_sorted :: "(string \<Rightarrow> string \<Rightarrow> bool) \<Rightarrow> TreeNode \<Rightarrow> bool" where
  "children_sorted le2 (TreeNode s f cs v) =
     (sorted_wrt (\<lambda>a b. le2 (segment a) (segment b)) cs
      \<and> (\<forall>c \<in> set cs. children_sorted le2 c))"

definition tree_sorted :: "(string \<Rightarrow> string \<Rightarrow> bool) \<Rightarrow> TreeNode list \<Rightarrow> bool" where
  "tree_sorted le2 nodes =
     (sorted_wrt (\<lambda>a b. le2 (segment a) (segment b)) nodes
      \<and> (\<forall>n \<in> set nodes. children_sorted le2 n))"

text \<open>
  Every object of a document, at every depth, has its keys in order (the claim as it is
  stated).
\<close>

fun deep_sorted :: "(string \<Rightarrow> string \<Rightarrow> bool) \<Rightarrow> json \<Rightarrow> bool" where
  "deep_sorted le (JObj es) =
     (sorted_wrt le (map fst es) \<and> (\<forall>e \<in> set es. deep_sorted le (snd e)))"
| "deep_sorted le (JArr xs) = (\<forall>x \<in> set xs. deep_sorted le x)"
| "deep_sorted le v = True"

text \<open>
  Every object reached through objects only has its keys that are not integer indices in
  order.
\<close>

fun keys_sorted :: "(string \<Rightarrow> string \<Rightarrow> bool) \<Rightarrow> json \<Rightarrow> bool" where
  "keys_sorted le (JObj es) =
     (sorted_wrt le (filter (\<lambda>k. \<not> is_index k) (map fst es))
      \<and> (\<forall>e \<in> set es. keys_sorted le (snd e)))"
| "keys_sorted le v = True"

section \<open>The catalog merge engine\<close>

text \<open>
  A value slot of the aggregate: the string of the language's flattened file, \<^verbatim>\<open>null\<close>,
  or, when the key is one of the names a plain object inherits, the inherited member that
  \<^verbatim>\<open>langMaps[code]?.[key]\<close> finds on \<^verbatim>\<open>Object.prototype\<close>.
\<close>

datatype cell = Value string | Null | Inherited

record NamespaceData =
  nd_namespace :: string
  nd_keys :: "(string \<times> (string \<times> cell) list) list"

text \<open>\<^verbatim>\<open>Set.prototype.add\<close>: a set keeps its elements in insertion order.\<close>

definition set_add :: "'a \<Rightarrow> 'a list \<Rightarrow> 'a list" where
  "set_add x s = (if x \<in> set s then s else s @ [x])"

definition allNamespaces :: "Language list \<Rightarrow> string list" where
  "allNamespaces langs =
     foldl (\<lambda>s lang. foldl (\<lambda>s f. set_add (namespace f) s) s (files lang)) [] langs"

text \<open>
  The loop over the languages for one namespace: \<^verbatim>\<open>langMaps\<close> (the last assignment for a
  code wins) and \<^verbatim>\<open>allKeys\<close>.
\<close>

fun collect :: "world \<Rightarrow> string \<Rightarrow> Language list \<Rightarrow> (string \<Rightarrow> FlatJson option) \<times> string list
    \<Rightarrow> (string \<Rightarrow> FlatJson option) \<times> string list" where
  "collect w ns [] st = st"
| "collect w ns (lang # langs) (langMaps, allKeys) =
     (case find_first (\<lambda>f. namespace f = ns) (files lang) of
        Some fl \<Rightarrow>
          (let flat = flattenJson (readJsonFile w (absolutePath fl)) []
           in collect w ns langs
                (langMaps(code lang \<mapsto> flat), foldl (\<lambda>s k. set_add k s) allKeys (map fst flat)))
      | None \<Rightarrow> collect w ns langs (langMaps(code lang \<mapsto> []), allKeys))"

text \<open>\<^verbatim>\<open>langMaps[code]?.[key] ?? null\<close>\<close>

definition lookup_value :: "(string \<Rightarrow> FlatJson option) \<Rightarrow> string \<Rightarrow> string \<Rightarrow> cell" where
  "lookup_value langMaps c key =
     (case langMaps c of
        None \<Rightarrow> Null
      | Some flat \<Rightarrow>
          (case map_of flat key of
             Some v \<Rightarrow> Value v
           | None \<Rightarrow> if key \<in> set proto_names then Inherited else Null))"

text \<open>\<^verbatim>\<open>Object.fromEntries\<close>: each entry defines an own property.\<close>

definition fromEntries :: "(string \<times> 'a) list \<Rightarrow> (string \<times> 'a) list" where
  "fromEntries xs = foldl (\<lambda>obj e. obj_put (fst e) (snd e) obj) [] xs"

definition readAll :: "(string \<Rightarrow> string \<Rightarrow> bool) \<Rightarrow> world \<Rightarrow> NamespaceData list" where
  "readAll le w =
     (let langs = languages (settings w);
          langCodes = map code langs
      in map (\<lambda>ns.
               (case collect w ns langs (Map.empty, []) of
                  (langMaps, allKeys) \<Rightarrow>
                    \<lparr>nd_namespace = ns,
                     nd_keys = map (\<lambda>key. (key, fromEntries
                                  (map (\<lambda>c. (c, lookup_value langMaps c key)) langCodes)))
                                (sort_by le allKeys)\<rparr>))
           (sort_by le (allNamespaces langs)))"

text \<open>
  Two languages; \<open>en-US\<close> has a file for \<open>common\<close> with the given document, \<open>fr-FR\<close> has
  no file for it.
\<close>

definition two_language_world :: "json \<Rightarrow> world" where
  "two_language_world doc =
     \<lparr>settings = \<lparr>rootFolder = Some ''/r'',
                   languages = [\<lparr>code = ''en-US'',
                                 files = [\<lparr>absolutePath = ''/r/en-US/common.json'',
                                           namespace = ''common''\<rparr>]\<rparr>,
                                \<lparr>code = ''fr-FR'', files = []\<rparr>],
                   folderStructure = Namespaced\<rparr>,
      disk = [''/r/en-US/common.json'' \<mapsto> Json doc],
      dirs = {''/r'', ''/r/en-US'', ''/r/fr-FR''}\<rparr>"

section \<open>Documents read by path\<close>

text \<open>The value a document holds at a path of own properties.\<close>

fun at :: "string list \<Rightarrow> json \<Rightarrow> json option" where
  "at [] v = Some v"
| "at (p # ps) (JObj es) = (case map_of es p of None \<Rightarrow> None | Some v \<Rightarrow> at ps v)"
| "at (p # ps) v = None"

text \<open>
  Re-nesting a flat map: each entry is inserted into the document with
  \<^verbatim>\<open>setNestedValue\<close>, starting from the empty document.
\<close>

definition nest :: "FlatJson \<Rightarrow> error + json" where
  "nest flat =
     foldl (\<lambda>doc e. case doc of Inl err \<Rightarrow> Inl err | Inr d \<Rightarrow> setNestedValue d (fst e) (snd e))
       (Inr (JObj [])) flat"

text \<open>
  Two documents are equal after coercing leaf values to strings and ignoring key order when
  every path leads in both to a leaf with the same string, in both to an object, or in
  neither anywhere.
\<close>

datatype node_kind = Leaf string | Branch

definition kind_of :: "json \<Rightarrow> node_kind" where
  "kind_of v = (case v of JObj es \<Rightarrow> Branch | _ \<Rightarrow> Leaf (leaf_string v))"

definition same_doc :: "json \<Rightarrow> json \<Rightarrow> bool" where
  "same_doc a b = (\<forall>path. map_option kind_of (at path a) = map_option kind_of (at path b))"

definition plain_key :: "string \<Rightarrow> bool" where
  "plain_key k = (k \<noteq> [] \<and> CHR ''.'' \<notin> set k \<and> k \<noteq> ''__proto__'')"

text \<open>
  A value below the root of a plain document: a string, number or boolean leaf, or a
  non-empty object with distinct plain keys and such values.
\<close>

fun plain_value :: "json \<Rightarrow> bool" where
  "plain_value (JObj es) =
     (es \<noteq> [] \<and> distinct (map fst es) \<and> (\<forall>e \<in> set es. plain_key (fst e) \<and> plain_value (snd e)))"
| "plain_value (JStr s) = True"
| "plain_value (JNum n) = True"
| "plain_value (JBool b) = True"
| "plain_value JNull = False"
| "plain_value (JArr xs) = False"

definition plain_doc :: "(string \<times> json) list \<Rightarrow> bool" where
  "plain_doc es =
     (distinct (map fst es) \<and> (\<forall>e \<in> set es. plain_key (fst e) \<and> plain_value (snd e)))"

fun is_prefix :: "'a list \<Rightarrow> 'a list \<Rightarrow> bool" where
  "is_prefix [] ys = True"
| "is_prefix (x # xs) [] = False"
| "is_prefix (x # xs) (y # ys) = (x = y \<and> is_prefix xs ys)"

text \<open>Only string leaves and objects.\<close>

fun str_tree :: "json \<Rightarrow> bool" where
  "str_tree (JObj es) = (\<forall>e \<in> set es. str_tree (snd e))"
| "str_tree (JStr s) = True"
| "str_tree v = False"

text \<open>The leaves of an object, each with its path and its value as a string, in document order.\<close>

fun leaves :: "(string \<times> json) list \<Rightarrow> (string list \<times> string) list" where
  "leaves [] = []"
| "leaves ((k, JObj ces) # es) = map (\<lambda>e. (k # fst e, snd e)) (leaves ces) @ leaves es"
| "leaves ((k, v) # es) = ([k], leaf_string v) # leaves es"

fun join_dot :: "string list \<Rightarrow> string" where
  "join_dot [] = []"
| "join_dot [p] = p"
| "join_dot (p # q # ps) = p @ ''.'' @ join_dot (q # ps)"

text \<open>
  A document holds the leaves \<open>S\<close> and nothing else: every pair of \<open>S\<close> is a string leaf at
  its path, and every path that leads anywhere is the root or runs towards a leaf of \<open>S\<close>.
\<close>

definition holds_leaves :: "(string list \<times> string) set \<Rightarrow> json \<Rightarrow> bool" where
  "holds_leaves S d = (\<forall>e \<in> S. at (fst e) d = Some (JStr (snd e)))"

definition nothing_else :: "(string list \<times> string) set \<Rightarrow> json \<Rightarrow> bool" where
  "nothing_else S d = (\<forall>q. at q d \<noteq> None \<longrightarrow> q = [] \<or> (\<exists>e \<in> S. is_prefix q (fst e)))"

definition nest_step :: "error + json \<Rightarrow> string \<times> string \<Rightarrow> error + json" where
  "nest_step doc e = (case doc of Inl err \<Rightarrow> Inl err | Inr d \<Rightarrow> setNestedValue d (fst e) (snd e))"

definition path_of :: "string \<times> string \<Rightarrow> string list \<times> string" where
  "path_of e = (split_dot (fst e), snd e)"

text \<open>
  The same scan with \<open>entry\<close> for \<open>file\<close>: every entry of the directory named
  \<open><namespace>.json\<close> counts, whatever its kind.
\<close>

definition json_entries :: "(string \<Rightarrow> dirent list) \<Rightarrow> string \<Rightarrow> TranslationFile list" where
  "json_entries readdir dir =
     concat (map (\<lambda>x. case strip_json (d_name x) of
                         Some ns \<Rightarrow> [\<lparr>absolutePath = path_join dir (ns @ ''.json''), namespace = ns\<rparr>]
                       | None \<Rightarrow> [])
               (readdir dir))"

definition entry_languages :: "(string \<Rightarrow> dirent list) \<Rightarrow> string \<Rightarrow> Language list" where
  "entry_languages readdir rootPath =
     map (\<lambda>e. \<lparr>code = d_name e, files = json_entries readdir (path_join rootPath (d_name e))\<rparr>)
       (filter (\<lambda>e. d_kind e = Directory \<and> LOCALE_REGEX (d_name e)
                  \<and> json_entries readdir (path_join rootPath (d_name e)) \<noteq> [])
          (readdir rootPath))"

text \<open>Inside the locale-named subdirectories, every entry named \<open><namespace>.json\<close> is a regular file.\<close>

definition json_names_are_files :: "(string \<Rightarrow> dirent list) \<Rightarrow> string \<Rightarrow> bool" where
  "json_names_are_files readdir rootPath =
     (\<forall>e \<in> set (readdir rootPath). d_kind e = Directory \<and> LOCALE_REGEX (d_name e) \<longrightarrow>
        (\<forall>x \<in> set (readdir (path_join rootPath (d_name e))).
           strip_json (d_name x) \<noteq> None \<longrightarrow> d_kind x = RegularFile))"

text \<open>
  The outcome of the detection from the results of the two scans: the namespaced languages
  with mode namespaced if there are any, otherwise the flat languages with mode flat if there
  are any, otherwise no language with mode namespaced. The settings hold nothing else.
\<close>

definition detected :: "string \<Rightarrow> Language list \<Rightarrow> Language list \<Rightarrow> world \<Rightarrow> AppSettings option \<times> world" where
  "detected rootPath namespaced flat w =
     (let langs = (if namespaced \<noteq> [] then namespaced else flat);
          mode = (if namespaced \<noteq> [] then Namespaced
                  else if flat \<noteq> [] then Flat
                  else Namespaced);
          s = \<lparr>rootFolder = Some rootPath, languages = langs, folderStructure = mode\<rparr>
      in (Some s, w\<lparr>settings := s\<rparr>))"

section \<open>Removing a key\<close>

lemma cleanup_nonempty: "child \<noteq> [] \<Longrightarrow> cleanup st child = rebuild st child"
  by (cases st) auto

lemma upd_nonempty: "map_of es p = Some v \<Longrightarrow> upd p w es \<noteq> []"
  by (cases es) (auto split: if_splits)

lemma walk_prune_spec:
  "walk parts current st = Inr (Some (st', c, leaf)) \<Longrightarrow>
     \<exists>r. prune_spec parts current = Some r \<and> cleanup st' (js_delete leaf c) = cleanup st r"
proof (induction parts current st rule: walk.induct)
  case (3 p q ps current st)
  from "3.prems" obtain ces where own: "map_of current p = Some (JObj ces)"
    and w: "walk (q # ps) ces ((current, p) # st) = Inr (Some (st', c, leaf))"
    by (auto split: option.splits json.splits if_splits)
  from "3.IH" own w obtain r' where
    r': "prune_spec (q # ps) ces = Some r'"
    and c: "cleanup st' (js_delete leaf c) = cleanup ((current, p) # st) r'"
    by blast
  show ?case
  proof (cases "r' = []")
    case True
    with own r' c show ?thesis by simp
  next
    case False
    have "cleanup st (upd p (JObj r') current) = rebuild st (upd p (JObj r') current)"
      using own by (intro cleanup_nonempty upd_nonempty)
    with False own r' c show ?thesis by simp
  qed
qed simp_all

lemma walk_None_prune_spec:
  "walk parts current st = Inr None \<Longrightarrow> prune_spec parts current = None"
  by (induction parts current st rule: walk.induct)
     (auto split: option.splits json.splits if_splits)

text \<open>
  Whenever \<^verbatim>\<open>removeNestedKey\<close> returns, the document is the one the specification
  describes: the leaf deleted and the emptied ancestors pruned, or the document as it was
  when the key's parent path does not exist.
\<close>

lemma removeNestedKey_refines:
  assumes "removeNestedKey (JObj es) dottedKey = Inr d"
  shows "d = JObj (case prune_spec (split_dot dottedKey) es of None \<Rightarrow> es | Some r \<Rightarrow> r)"
proof (cases "walk (split_dot dottedKey) es []")
  case (Inl e)
  with assms show ?thesis by (simp add: removeNestedKey_def)
next
  case (Inr res)
  show ?thesis
  proof (cases res)
    case None
    with Inr assms walk_None_prune_spec [of "split_dot dottedKey" es "[]"] show ?thesis
      by (simp add: removeNestedKey_def)
  next
    case (Some t)
    obtain st' c leaf where t: "t = (st', c, leaf)" by (cases t)
    from walk_prune_spec [of "split_dot dottedKey" es "[]" st' c leaf] Inr Some t
    obtain r where "prune_spec (split_dot dottedKey) es = Some r"
      and "cleanup st' (js_delete leaf c) = r" by auto
    with Inr Some t assms show ?thesis by (simp add: removeNestedKey_def)
  qed
qed

lemma removeNestedKey_prunes_all:
  "removeNestedKey (JObj [(''a'', JObj [(''b'', JObj [(''c'', JStr ''x'')])])]) ''a.b.c''
     = Inr (JObj [])"
  by (simp add: removeNestedKey_def js_delete_def)

lemma removeNestedKey_stops_at_sibling:
  "removeNestedKey
     (JObj [(''a'', JObj [(''b'', JObj [(''c'', JStr ''x'')]), (''d'', JStr ''y'')])]) ''a.b.c''
     = Inr (JObj [(''a'', JObj [(''d'', JStr ''y'')])])"
  by (simp add: removeNestedKey_def js_delete_def)

text \<open>
  C1. Removing \<open>a.b\<close> from the document \<open>{"a": null}\<close>: there is no leaf \<open>a.b\<close>, so the
  removal the claim describes leaves the document as it is. The code steps onto the null
  property (\<^verbatim>\<open>typeof null\<close> is \<^verbatim>\<open>"object"\<close>, and unlike \<^verbatim>\<open>setNestedValue\<close> the
  walk has no null check) and the \<^verbatim>\<open>delete\<close> throws a \<^verbatim>\<open>TypeError\<close>.
\<close>

theorem removeNestedKey_null_ancestor_throws:
  "removeNestedKey (JObj [(''a'', JNull)]) ''a.b'' = Inl TypeError
   \<and> prune_spec (split_dot ''a.b'') [(''a'', JNull)] = None
   \<and> setNestedValue (JObj [(''a'', JNull)]) ''a.b'' [] = Inr (JObj [(''a'', JObj [(''b'', JStr [])])])"
  by (simp add: removeNestedKey_def setNestedValue_def js_assign_def obj_put_def hasOwn_def)

section \<open>ensureFile in flat mode\<close>

definition flat_world :: world where
  "flat_world =
     \<lparr>settings = \<lparr>rootFolder = Some ''/r'',
                   languages = [\<lparr>code = ''en-US'',
                                 files = [\<lparr>absolutePath = ''/r/en-US.json'', namespace = ''default''\<rparr>]\<rparr>],
                   folderStructure = Flat\<rparr>,
      disk = [''/r/en-US.json'' \<mapsto> Json (JObj [(''k'', JStr ''hello'')])],
      dirs = {''/r''}\<rparr>"

lemma find_first_None: "find_first P xs = None \<longleftrightarrow> (\<forall>x \<in> set xs. \<not> P x)"
  by (induction xs) auto

lemma find_first_push_file:
  "find_first (\<lambda>l. code l = c) ls = Some lang \<Longrightarrow>
     find_first (\<lambda>l. code l = c) (push_file c f ls) = Some (lang\<lparr>files := files lang @ [f]\<rparr>)"
  by (induction ls) auto

text \<open>
  C10. In flat mode, for a configured language with no File for the requested namespace (and
  a root folder set), \<^verbatim>\<open>ensureFile\<close> returns and appends to that language a File record
  with the requested namespace and the path \<open><root>/<langCode>.json\<close>, whatever the
  namespace; a file already at that path is left as it is (an empty document is written only
  when nothing exists there); so every File record of the language that already points to
  the flat file carries another namespace and the same path.
\<close>

theorem ensureFile_flat_shares_path:
  assumes "folderStructure (settings w) = Flat"
    and "rootFolder (settings w) = Some root" and "root \<noteq> []"
    and "find_first (\<lambda>l. code l = c) (languages (settings w)) = Some lang"
    and "find_first (\<lambda>f. namespace f = ns) (files lang) = None"
  shows "\<exists>w'. ensureFile w c ns
           = (Some \<lparr>absolutePath = path_join root (c @ ''.json''), namespace = ns\<rparr>, w')
         \<and> find_first (\<lambda>l. code l = c) (languages (settings w'))
           = Some (lang\<lparr>files := files lang
                     @ [\<lparr>absolutePath = path_join root (c @ ''.json''), namespace = ns\<rparr>]\<rparr>)
         \<and> disk w' = (if existsSync w (path_join root (c @ ''.json'')) then disk w
                      else (disk w)(path_join root (c @ ''.json'') \<mapsto> Json (JObj [])))
         \<and> (\<forall>f \<in> set (files lang).
               absolutePath f = path_join root (c @ ''.json'') \<longrightarrow> namespace f \<noteq> ns)"
proof -
  from assms(5) have "\<forall>f \<in> set (files lang). namespace f \<noteq> ns"
    by (simp add: find_first_None)
  moreover note find_first_push_file [OF assms(4)]
  ultimately show ?thesis
    using assms by (auto simp: ensureFile_def Let_def existsSync_def)
qed

theorem ensureFile_flat_shares_path_witness:
  "folderStructure (settings flat_world) = Flat
   \<and> rootFolder (settings flat_world) = Some ''/r''
   \<and> fst (ensureFile flat_world ''en-US'' ''common'')
       = Some \<lparr>absolutePath = ''/r/en-US.json'', namespace = ''common''\<rparr>
   \<and> find_first (\<lambda>l. code l = ''en-US'')
         (languages (settings (snd (ensureFile flat_world ''en-US'' ''common''))))
       = Some \<lparr>code = ''en-US'',
               files = [\<lparr>absolutePath = ''/r/en-US.json'', namespace = ''default''\<rparr>,
                        \<lparr>absolutePath = ''/r/en-US.json'', namespace = ''common''\<rparr>]\<rparr>
   \<and> disk (snd (ensureFile flat_world ''en-US'' ''common'')) = disk flat_world"
  using ensureFile_flat_shares_path [of flat_world "''/r''" "''en-US''"
      "\<lparr>code = ''en-US'', files = [\<lparr>absolutePath = ''/r/en-US.json'', namespace = ''default''\<rparr>]\<rparr>"
      "''common''"]
  by (auto simp: flat_world_def path_join_def existsSync_def)

section \<open>The route of a request\<close>

lemma split_slash_nonempty: "split_slash s \<noteq> []"
  by (induction s) (auto split: list.splits)

lemma split_slash_plain: "CHR ''/'' \<notin> set a \<Longrightarrow> split_slash a = [a]"
  by (induction a) auto

lemma split_slash_append:
  "CHR ''/'' \<notin> set a \<Longrightarrow> split_slash (a @ CHR ''/'' # b) = a # split_slash b"
  by (induction a) auto

lemma split_slash_two:
  "split_slash s = [l, n] \<Longrightarrow>
     s = l @ CHR ''/'' # n \<and> CHR ''/'' \<notin> set l \<and> CHR ''/'' \<notin> set n"
proof (induction s arbitrary: l)
  case Nil
  then show ?case by simp
next
  case (Cons c s)
  show ?case
  proof (cases "c = CHR ''/''")
    case True
    with Cons.prems have l: "l = []" and n: "split_slash s = [n]" by auto
    have "CHR ''/'' \<notin> set s"
    proof
      assume "CHR ''/'' \<in> set s"
      then obtain a b where "s = a @ CHR ''/'' # b" "CHR ''/'' \<notin> set a"
        by (meson split_list_first)
      with n split_slash_append [of a b] split_slash_nonempty [of b] show False by auto
    qed
    with n split_slash_plain [of s] True l show ?thesis by simp
  next
    case False
    with Cons.prems obtain l' where "l = c # l'" "split_slash s = [l', n]"
      by (auto split: list.splits)
    with Cons.IH [of l'] False show ?thesis by auto
  qed
qed

text \<open>The route is exactly a URL of the form \<open>/locales/<lng>/<ns>\<close>, both parts non-empty and without a slash.\<close>

lemma match_locales_iff:
  "match_locales url = Some (lng, ns) \<longleftrightarrow>
     url = ''/locales/'' @ lng @ ''/'' @ ns \<and> lng \<noteq> [] \<and> ns \<noteq> []
     \<and> CHR ''/'' \<notin> set lng \<and> CHR ''/'' \<notin> set ns"
proof
  assume m: "match_locales url = Some (lng, ns)"
  then have t: "take 9 url = ''/locales/''" and sp: "split_slash (drop 9 url) = [lng, ns]"
    and ne: "lng \<noteq> []" "ns \<noteq> []"
    by (auto simp: match_locales_def split: if_splits list.splits)
  from t have "url = ''/locales/'' @ drop 9 url"
    by (metis append_take_drop_id)
  with split_slash_two [OF sp] ne show
    "url = ''/locales/'' @ lng @ ''/'' @ ns \<and> lng \<noteq> [] \<and> ns \<noteq> []
     \<and> CHR ''/'' \<notin> set lng \<and> CHR ''/'' \<notin> set ns"
    by simp
next
  assume "url = ''/locales/'' @ lng @ ''/'' @ ns \<and> lng \<noteq> [] \<and> ns \<noteq> []
     \<and> CHR ''/'' \<notin> set lng \<and> CHR ''/'' \<notin> set ns"
  then show "match_locales url = Some (lng, ns)"
    by (simp add: match_locales_def split_slash_append split_slash_plain)
qed


lemmas run_simps =
  handleRequest_def route_def match_locales_def body_field_def caught_def
  ensureFile_def readJsonFile_def js_in_def hasOwn_def proto_names_def
  property_key_def set_received_def setNestedValue_def js_assign_def obj_put_def is_index_def
  writeJsonFile_def sortDeep_root_def intake_default_def Let_def existsSync_def path_join_def
  fullKey_of_def object_assign_def is_digit_def build_sorted_def sort_by_def key_le_def

section \<open>Two sequential reports of one key\<close>

definition report :: "string \<Rightarrow> request" where
  "report k = \<lparr>req_method = POST, req_url = Some ''/locales/en-US/common'',
                req_body = Some (JObj [(''key'', JStr k)])\<rparr>"

text \<open>The notifications of two sequential requests, and the file after each.\<close>

definition report_twice :: "string \<Rightarrow> world
    \<Rightarrow> (notification list \<times> content option) \<times> (notification list \<times> content option)" where
  "report_twice k w =
     (case handleRequest ascii_le (report k) w of
        (w1, notes1, r1) \<Rightarrow>
          (case handleRequest ascii_le (report k) w1 of
             (w2, notes2, r2) \<Rightarrow>
               ((notes1, disk w1 ''/r/en-US/common.json''),
                (notes2, disk w2 ''/r/en-US/common.json''))))"

lemma report_twice_ordinary_key:
  "report_twice ''x.y'' one_language_world =
     (([(''common'', [Some (JStr ''x.y'')])], Some (Json (JObj [(''x'', JObj [(''y'', JStr [])])]))),
      ([], Some (Json (JObj [(''x'', JObj [(''y'', JStr [])])]))))"
  by (simp add: report_twice_def report_def run_simps one_language_world_def)

text \<open>
  C6. One language is configured, the root folder is set, and its file for \<open>common\<close> is
  \<open>{}\<close>, so the key \<open>constructor\<close> is absent from every language's file. The claim has the
  first POST insert the key and notify once. The code tests \<^verbatim>\<open>key in flat\<close>, which is
  true for a name inherited from \<^verbatim>\<open>Object.prototype\<close>: neither request inserts the key
  and there is no notification at all. For the key \<open>.b\<close> the first request writes
  \<open>{"": {"b": ""}}\<close>, which \<^verbatim>\<open>flattenJson\<close> reads back as the key \<open>b\<close> (an empty prefix
  counts as no prefix), so the second request finds the key absent again and notifies a
  second time.
\<close>

theorem report_twice_inherited_name:
  "report_twice ''constructor'' one_language_world =
     (([], Some (Json (JObj []))), ([], Some (Json (JObj []))))
   \<and> report_twice ''.b'' one_language_world =
     (([(''common'', [Some (JStr ''.b'')])], Some (Json (JObj [([], JObj [(''b'', JStr [])])]))),
      ([(''common'', [Some (JStr ''.b'')])], Some (Json (JObj [([], JObj [(''b'', JStr [])])]))))"
  by (simp add: report_twice_def report_def run_simps one_language_world_def)

section \<open>Import mode detection\<close>

lemma scan_namespaced_eq:
  "scan_namespaced readdir rootPath entries langs =
     langs @ map (\<lambda>e. \<lparr>code = d_name e, files = scanJsonFiles readdir (path_join rootPath (d_name e))\<rparr>)
       (filter (\<lambda>e. d_kind e = Directory \<and> LOCALE_REGEX (d_name e)
                  \<and> scanJsonFiles readdir (path_join rootPath (d_name e)) \<noteq> []) entries)"
  by (induction entries arbitrary: langs) (simp_all add: Let_def)

lemma LOCALE_JSON_length: "LOCALE_JSON_REGEX name \<Longrightarrow> length name = 10"
proof -
  assume a: "LOCALE_JSON_REGEX name"
  then have "length (take 5 name) = 5"
    by (auto simp: LOCALE_JSON_REGEX_def LOCALE_REGEX_def split: list.splits
        dest!: arg_cong [where f = length])
  moreover from a have "length (drop 5 name) = 5"
    by (auto simp: LOCALE_JSON_REGEX_def dest!: arg_cong [where f = length])
  ultimately show ?thesis by simp
qed

lemma basename_json_locale: "LOCALE_JSON_REGEX name \<Longrightarrow> basename_json name = take 5 name"
  by (frule LOCALE_JSON_length) (simp add: basename_json_def endsWith_def LOCALE_JSON_REGEX_def)

lemma scan_flat_eq:
  "scan_flat rootPath entries langs =
     langs @ map (\<lambda>e. \<lparr>code = take 5 (d_name e),
               files = [\<lparr>absolutePath = path_join rootPath (d_name e), namespace = ''default''\<rparr>]\<rparr>)
       (filter (\<lambda>e. d_kind e = RegularFile \<and> LOCALE_JSON_REGEX (d_name e)) entries)"
  by (induction entries arbitrary: langs)
     (simp_all add: basename_json_locale DEFAULT_NAMESPACE_def)
section \<open>Alphabetical order\<close>

lemma total_preorderD:
  assumes "total_preorder le"
  shows "le a b \<or> le b a" and "le a b \<Longrightarrow> le b c \<Longrightarrow> le a c"
  using assms unfolding total_preorder_def by blast+

lemma total_preorder_key_le: "total_preorder le \<Longrightarrow> total_preorder (key_le le)"
  unfolding total_preorder_def key_le_def by blast

lemma total_preorder_segment:
  "total_preorder le2 \<Longrightarrow> total_preorder (\<lambda>a b. le2 (segment a) (segment b))"
  unfolding total_preorder_def by blast

lemma sorted_insert_by:
  assumes "total_preorder le" and "sorted_wrt le ys"
  shows "sorted_wrt le (insert_by le x ys)"
  using assms(2)
proof (induction ys)
  case Nil
  then show ?case by simp
next
  case (Cons y ys)
  show ?case
  proof (cases "le x y")
    case True
    with Cons.prems total_preorderD(2) [OF assms(1)] show ?thesis by auto
  next
    case False
    with total_preorderD(1) [OF assms(1), of x y] have "le y x" by blast
    with False Cons show ?thesis by auto
  qed
qed

lemma sorted_sort_by: "total_preorder le \<Longrightarrow> sorted_wrt le (sort_by le xs)"
  by (induction xs) (simp_all add: sort_by_def sorted_insert_by)

lemma map_fst_upd [simp]: "map fst (upd k v es) = map fst es"
  by (induction k v es rule: upd.induct) auto

lemma named_keys_ins_index:
  "is_index k \<Longrightarrow> filter (\<lambda>k. \<not> is_index k) (map fst (ins_index k v es))
     = filter (\<lambda>k. \<not> is_index k) (map fst es)"
  by (induction k v es rule: ins_index.induct) auto

lemma named_keys_js_assign:
  "filter (\<lambda>k. \<not> is_index k) (map fst (js_assign k v acc))
     = filter (\<lambda>k. \<not> is_index k) (map fst acc)
   \<or> (\<not> is_index k \<and> filter (\<lambda>k. \<not> is_index k) (map fst (js_assign k v acc))
     = filter (\<lambda>k. \<not> is_index k) (map fst acc) @ [k])"
  by (simp add: js_assign_def obj_put_def named_keys_ins_index)

lemma named_keys_foldl_sorted:
  "sorted_wrt le (filter (\<lambda>k. \<not> is_index k) (map fst acc)
        @ filter (\<lambda>k. \<not> is_index k) (map fst xs)) \<Longrightarrow>
   sorted_wrt le (filter (\<lambda>k. \<not> is_index k)
        (map fst (foldl (\<lambda>sorted e. js_assign (fst e) (snd e) sorted) acc xs)))"
proof (induction xs arbitrary: acc)
  case Nil
  then show ?case by simp
next
  case (Cons x xs)
  define A where "A = filter (\<lambda>k. \<not> is_index k) (map fst acc)"
  define F where "F = filter (\<lambda>k. \<not> is_index k) (map fst xs)"
  define A' where "A' = filter (\<lambda>k. \<not> is_index k) (map fst (js_assign (fst x) (snd x) acc))"
  from Cons.prems have "sorted_wrt le (A @ (if \<not> is_index (fst x) then fst x # F else F))"
    by (cases "is_index (fst x)") (simp_all add: A_def F_def)
  moreover from named_keys_js_assign [of "fst x" "snd x" acc]
  have "A' = A \<or> (\<not> is_index (fst x) \<and> A' = A @ [fst x])"
    by (simp add: A_def A'_def)
  ultimately have "sorted_wrt le (A' @ F)"
    by (auto simp: sorted_wrt_append split: if_splits)
  then have "sorted_wrt le (filter (\<lambda>k. \<not> is_index k) (map fst (js_assign (fst x) (snd x) acc))
        @ filter (\<lambda>k. \<not> is_index k) (map fst xs))"
    by (simp add: A'_def F_def)
  from Cons.IH [OF this] show ?case by simp
qed

lemma named_keys_build_sorted:
  assumes "total_preorder le"
  shows "sorted_wrt le (filter (\<lambda>k. \<not> is_index k)
           (map fst (build_sorted (sort_by (key_le le) xs))))"
proof -
  have "sorted_wrt (key_le le) (sort_by (key_le le) xs)"
    using assms by (intro sorted_sort_by total_preorder_key_le)
  then have "sorted_wrt (\<lambda>a b. le (fst a) (fst b)) (sort_by (key_le le) xs)"
    by (rule sorted_wrt_mono_rel [rotated]) (simp add: key_le_def)
  then have "sorted_wrt le (map fst (sort_by (key_le le) xs))"
    by (simp add: sorted_wrt_map)
  then have "sorted_wrt le (filter (\<lambda>k. \<not> is_index k) (map fst (sort_by (key_le le) xs)))"
    by (rule sorted_wrt_filter)
  then show ?thesis
    unfolding build_sorted_def by (intro named_keys_foldl_sorted) simp
qed

lemma set_upd: "set (upd k v es) \<subseteq> insert (k, v) (set es)"
  by (induction k v es rule: upd.induct) auto

lemma set_ins_index [simp]: "set (ins_index k v es) = insert (k, v) (set es)"
  by (induction k v es rule: ins_index.induct) auto

lemma set_js_assign: "set (js_assign k v acc) \<subseteq> insert (k, v) (set acc)"
  using set_upd [of k v acc] by (auto simp: js_assign_def obj_put_def)

lemma set_foldl_js_assign:
  "set (foldl (\<lambda>sorted e. js_assign (fst e) (snd e) sorted) acc xs) \<subseteq> set acc \<union> set xs"
proof (induction xs arbitrary: acc)
  case Nil
  then show ?case by simp
next
  case (Cons x xs)
  from Cons.IH [of "js_assign (fst x) (snd x) acc"] set_js_assign [of "fst x" "snd x" acc]
  show ?case by auto
qed

lemma set_build_sorted: "set (build_sorted (sort_by le' xs)) \<subseteq> set xs"
  using set_foldl_js_assign [of "[]" "sort_by le' xs"] by (simp add: build_sorted_def)

lemma keys_sorted_sortValue:
  "total_preorder le \<Longrightarrow> keys_sorted le (JObj (sortDeep le es))"
  "total_preorder le \<Longrightarrow> \<forall>e \<in> set (sortValues le es). keys_sorted le (snd e)"
  "total_preorder le \<Longrightarrow> keys_sorted le (sortValue le v)"
proof (induction le es and le es and le v rule: sortDeep_sortValues_sortValue.induct)
  case (1 le es)
  have "\<forall>e \<in> set (sortDeep le es). keys_sorted le (snd e)"
    using 1 set_build_sorted [of "key_le le" "sortValues le es"] by auto
  with named_keys_build_sorted [OF "1.prems", of "sortValues le es"] show ?case by simp
qed simp_all


lemma tree_sorted_sortTree:
  "total_preorder le2 \<Longrightarrow> tree_sorted le2 (sortTree le2 nodes)"
proof (induction le2 nodes rule: sortTree.induct)
  case (1 le2 nodes)
  define S where "S = sort_by (\<lambda>a b. le2 (segment a) (segment b)) nodes"
  define g where "g = (\<lambda>n. TreeNode (segment n) (fullKey n) (sortTree le2 (children n)) (vals n))"
  have eq: "sortTree le2 nodes = map g S"
    by (subst sortTree.simps) (simp add: S_def g_def)
  have "sorted_wrt (\<lambda>a b. le2 (segment a) (segment b)) S"
    unfolding S_def using "1.prems" by (intro sorted_sort_by total_preorder_segment)
  then have s: "sorted_wrt (\<lambda>a b. le2 (segment a) (segment b)) (map g S)"
    by (simp add: sorted_wrt_map g_def)
  have "children_sorted le2 (g n)" if "n \<in> set S" for n
    using "1.IH" [of n] "1.prems" that by (simp add: S_def g_def tree_sorted_def)
  with s eq show ?case by (simp add: tree_sorted_def)
qed

lemma children_sorted_coarser:
  "children_sorted le2 n \<Longrightarrow> \<forall>a b. le2 a b \<longrightarrow> le a b \<Longrightarrow> children_sorted le n"
proof (induction le2 n rule: children_sorted.induct)
  case (1 le2 s f cs v)
  from "1.prems" have "sorted_wrt (\<lambda>a b. le (segment a) (segment b)) cs"
    by (auto elim: sorted_wrt_mono_rel [rotated])
  with 1 show ?case by auto
qed

lemma tree_sorted_coarser:
  "tree_sorted le2 nodes \<Longrightarrow> \<forall>a b. le2 a b \<longrightarrow> le a b \<Longrightarrow> tree_sorted le nodes"
  unfolding tree_sorted_def
  by (auto elim: sorted_wrt_mono_rel [rotated] children_sorted_coarser)

text \<open>
  C8, as stated, fails: \<^verbatim>\<open>sortDeep\<close> leaves an array as it is, so an object inside an
  array keeps its key order.
\<close>

theorem sortDeep_skips_arrays:
  "sortValue ascii_le (JObj [(''list'', JArr [JObj [(''b'', JNum ''1''), (''a'', JNum ''2'')]])])
     = JObj [(''list'', JArr [JObj [(''b'', JNum ''1''), (''a'', JNum ''2'')]])]
   \<and> \<not> deep_sorted ascii_le
       (sortValue ascii_le (JObj [(''list'', JArr [JObj [(''b'', JNum ''1''), (''a'', JNum ''2'')]])]))
   \<and> sortValue ascii_le (JObj [(''b'', JNum ''1''), (''a'', JNum ''2'')])
     = JObj [(''a'', JNum ''2''), (''b'', JNum ''1'')]"
  by (simp add: build_sorted_def sort_by_def key_le_def js_assign_def obj_put_def hasOwn_def
      is_index_def is_digit_def ascii_le_def fold_case_def)

lemma lex_le_total: "lex_le a b \<or> lex_le b a"
  by (induction a b rule: lex_le.induct) auto

lemma lex_le_trans: "lex_le a b \<Longrightarrow> lex_le b c \<Longrightarrow> lex_le a c"
proof (induction a b arbitrary: c rule: lex_le.induct)
  case (3 x xs y ys)
  then show ?case by (cases c) auto
qed simp_all

lemma total_preorder_ascii_le: "total_preorder ascii_le"
  unfolding total_preorder_def ascii_le_def
  using lex_le_total lex_le_trans by blast

lemma total_preorder_ascii_le2: "total_preorder ascii_le2"
proof -
  have tot: "ascii_le2 a b \<or> ascii_le2 b a" for a b
    using total_preorderD(1) [OF total_preorder_ascii_le, of a b]
      lex_le_total [of "map of_char a" "map of_char b"]
    by (auto simp: ascii_le2_def)
  have tr: "ascii_le2 a c" if "ascii_le2 a b" "ascii_le2 b c" for a b c
  proof -
    note t = total_preorderD(2) [OF total_preorder_ascii_le]
    from that have ac: "ascii_le a c" by (auto simp: ascii_le2_def intro: t)
    have "lex_le (map of_char a) (map of_char c)" if ca: "ascii_le c a"
    proof -
      from ca \<open>ascii_le2 a b\<close> have "ascii_le c b" by (auto simp: ascii_le2_def intro: t)
      with \<open>ascii_le2 b c\<close> have bc: "lex_le (map of_char b) (map of_char c)"
        by (simp add: ascii_le2_def)
      from ca \<open>ascii_le2 b c\<close> have "ascii_le b a" by (auto simp: ascii_le2_def intro: t)
      with \<open>ascii_le2 a b\<close> have "lex_le (map of_char a) (map of_char b)"
        by (simp add: ascii_le2_def)
      with bc show ?thesis using lex_le_trans by blast
    qed
    with ac show ?thesis by (simp add: ascii_le2_def)
  qed
  from tot tr show ?thesis unfolding total_preorder_def by blast
qed

section \<open>The aggregate view\<close>

lemmas readAll_simps =
  readAll_def two_language_world_def allNamespaces_def set_add_def sort_by_def
  lookup_value_def fromEntries_def obj_put_def hasOwn_def is_index_def is_digit_def
  readJsonFile_def js_assign_def fullKey_of_def leaf_string_def proto_names_def Let_def

lemma readAll_fills_null:
  "readAll ascii_le (two_language_world (JObj [(''k'', JStr ''hello'')])) =
     [\<lparr>nd_namespace = ''common'',
       nd_keys = [(''k'', [(''en-US'', Value ''hello''), (''fr-FR'', Null)])]\<rparr>]"
  by (simp add: readAll_simps)

text \<open>
  C4. \<open>en-US\<close> has the key \<open>constructor\<close> and \<open>fr-FR\<close> has no file for the namespace, so
  the claim gives \<open>fr-FR\<close> the value \<^verbatim>\<open>null\<close>. The code looks the key up with
  \<^verbatim>\<open>langMaps[code]?.[key]\<close> on a plain object, finds the member inherited from
  \<^verbatim>\<open>Object.prototype\<close>, and \<^verbatim>\<open>?? null\<close> keeps it: the slot is neither a string nor null.
\<close>

theorem readAll_inherited_name:
  "readAll ascii_le (two_language_world (JObj [(''constructor'', JStr ''Builder'')])) =
     [\<lparr>nd_namespace = ''common'',
       nd_keys = [(''constructor'', [(''en-US'', Value ''Builder''), (''fr-FR'', Inherited)])]\<rparr>]"
  by (simp add: readAll_simps)

section \<open>What setNestedValue does to each path\<close>

lemma map_of_upd:
  "map_of (upd k v es) = (if k \<in> fst ` set es then (map_of es)(k \<mapsto> v) else map_of es)"
  by (induction k v es rule: upd.induct) (auto simp: fun_eq_iff)

lemma map_of_ins_index:
  "k \<notin> fst ` set es \<Longrightarrow> map_of (ins_index k v es) = (map_of es)(k \<mapsto> v)"
  by (induction k v es rule: ins_index.induct) (auto simp: fun_eq_iff)

lemma map_of_snoc:
  "k \<notin> fst ` set es \<Longrightarrow> [k \<mapsto> v] ++ map_of es = (map_of es)(k \<mapsto> v)"
proof -
  assume "k \<notin> fst ` set es"
  then have "map_of es k = None" by (simp add: map_of_eq_None_iff)
  then show ?thesis by (auto simp: fun_eq_iff map_add_def split: option.splits)
qed

lemma map_of_obj_put: "map_of (obj_put k v es) = (map_of es)(k \<mapsto> v)"
  by (simp add: obj_put_def hasOwn_def map_of_upd map_of_ins_index map_of_snoc)

lemma map_of_js_assign:
  "k \<noteq> ''__proto__'' \<Longrightarrow> map_of (js_assign k v es) = (map_of es)(k \<mapsto> v)"
  by (simp add: js_assign_def map_of_obj_put)

lemma map_of_js_assign_other:
  "q \<noteq> k \<Longrightarrow> map_of (js_assign k v es) q = map_of es q"
  by (simp add: js_assign_def map_of_obj_put)

lemma at_append: "at (p @ q) d = (case at p d of None \<Rightarrow> None | Some v \<Rightarrow> at q v)"
  by (induction p d rule: at.induct) (auto split: option.splits)

lemma at_leaf: "at (p # ps) v = Some x \<Longrightarrow> \<exists>es. v = JObj es"
  by (cases v) auto

lemma at_Cons_non_object: "\<forall>xs. a \<noteq> JObj xs \<Longrightarrow> at (q # qs) a = None"
  by (cases a) auto

lemma is_prefix_iff: "is_prefix p q \<longleftrightarrow> (\<exists>r. q = p @ r)"
  by (induction p q rule: is_prefix.induct) auto

lemma set_obj_put: "set (obj_put k v es) \<subseteq> insert (k, v) (set es)"
  using set_upd [of k v es] by (auto simp: obj_put_def)

text \<open>The object that the walk of \<^verbatim>\<open>setNestedValue\<close> continues in below the property \<open>p\<close>.\<close>

lemma set_path_Cons:
  "set_path (p # q # ps) v es =
     (case map_of es p of
        Some (JArr xs) \<Rightarrow> Inl OffDocument
      | Some (JObj ces) \<Rightarrow> map_sum id (\<lambda>ces'. upd p (JObj ces') es) (set_path (q # ps) v ces)
      | Some x \<Rightarrow> map_sum id (\<lambda>ces'. upd p (JObj ces') es) (set_path (q # ps) v [])
      | None \<Rightarrow> if p = ''__proto__'' then Inl OffDocument
                else map_sum id (\<lambda>ces'. obj_put p (JObj ces') es) (set_path (q # ps) v []))"
  by (auto split: option.splits json.splits sum.splits)

lemma set_path_shape:
  assumes "set_path (p # q # ps) v es = Inr es'"
  obtains ces ces' where "set_path (q # ps) v ces = Inr ces'"
    and "map_of es' = (map_of es)(p \<mapsto> JObj ces')"
    and "set es' \<subseteq> insert (p, JObj ces') (set es)"
    and "map_of es p = Some (JObj ces) \<or> (ces = [] \<and> (\<forall>xs. map_of es p \<noteq> Some (JObj xs)))"
proof (cases "map_of es p")
  case None
  with assms obtain ces' where c: "set_path (q # ps) v [] = Inr ces'"
    and e: "es' = obj_put p (JObj ces') es"
    by (auto split: sum.splits if_splits)
  show ?thesis
    by (rule that [OF c]) (use None e set_obj_put [of p "JObj ces'" es] in \<open>auto simp: map_of_obj_put\<close>)
next
  case (Some x)
  then have own: "p \<in> fst ` set es" by (force dest: map_of_SomeD)
  show ?thesis
  proof (cases "\<exists>ces. x = JObj ces")
    case True
    then obtain ces where x: "x = JObj ces" by blast
    with Some assms obtain ces' where c: "set_path (q # ps) v ces = Inr ces'"
      and e: "es' = upd p (JObj ces') es"
      by (auto split: sum.splits)
    show ?thesis
      by (rule that [OF c]) (use Some x e own set_upd [of p "JObj ces'" es] in \<open>auto simp: map_of_upd\<close>)
  next
    case False
    with Some assms obtain ces' where c: "set_path (q # ps) v [] = Inr ces'"
      and e: "es' = upd p (JObj ces') es"
      by (cases x) (auto split: sum.splits)
    show ?thesis
      by (rule that [OF c]) (use Some False e own set_upd [of p "JObj ces'" es] in \<open>auto simp: map_of_upd\<close>)
  qed
qed

lemma set_path_str_tree:
  "str_tree (JObj es) \<Longrightarrow> ''__proto__'' \<notin> set p \<Longrightarrow>
     \<exists>es'. set_path p s es = Inr es' \<and> str_tree (JObj es')"
proof (induction p arbitrary: es)
  case Nil
  then show ?case by simp
next
  case (Cons p ps)
  show ?case
  proof (cases ps)
    case Nil
    with Cons.prems set_js_assign [of p "JStr s" es] show ?thesis by auto
  next
    case (Cons q qs)
    have sub: "\<exists>ces'. set_path ps s ces = Inr ces' \<and> str_tree (JObj ces')" if "str_tree (JObj ces)" for ces
      using Cons.IH [OF that] Cons.prems(2) by simp
    show ?thesis
    proof (cases "map_of es p")
      case None
      from sub [of "[]"] obtain ces' where "set_path ps s [] = Inr ces'" "str_tree (JObj ces')" by auto
      with None Cons Cons.prems set_obj_put [of p "JObj ces'" es] show ?thesis by auto
    next
      case (Some x)
      then have "(p, x) \<in> set es" by (rule map_of_SomeD)
      with Cons.prems have sx: "str_tree x" by auto
      show ?thesis
      proof (cases x)
        case (JObj ces)
        with sx sub [of ces] obtain ces' where
          "set_path ps s ces = Inr ces'" "str_tree (JObj ces')" by auto
        with Some JObj Cons Cons.prems set_upd [of p "JObj ces'" es] show ?thesis by auto
      next
        case (JStr t)
        from sub [of "[]"] obtain ces' where "set_path ps s [] = Inr ces'" "str_tree (JObj ces')" by auto
        with Some JStr Cons Cons.prems set_upd [of p "JObj ces'" es] show ?thesis by auto
      qed (use sx in simp_all)
    qed
  qed
qed

lemma set_path_at_self:
  "set_path p s es = Inr es' \<Longrightarrow> p \<noteq> [] \<Longrightarrow> ''__proto__'' \<notin> set p \<Longrightarrow>
     at p (JObj es') = Some (JStr s)"
proof (induction p arbitrary: es es')
  case Nil
  then show ?case by simp
next
  case (Cons p ps)
  show ?case
  proof (cases ps)
    case Nil
    with Cons.prems show ?thesis by (auto simp: map_of_js_assign)
  next
    case (Cons q qs)
    from Cons.prems(1) obtain ces ces' where c: "set_path (q # qs) s ces = Inr ces'"
      and m: "map_of es' = (map_of es)(p \<mapsto> JObj ces')"
      unfolding Cons by (rule set_path_shape)
    from Cons.IH [of ces ces'] c Cons Cons.prems(3) have "at ps (JObj ces') = Some (JStr s)"
      by simp
    with m show ?thesis by simp
  qed
qed

lemma set_path_at_other:
  "set_path p s es = Inr es' \<Longrightarrow> \<not> is_prefix q p \<Longrightarrow> \<not> is_prefix p q \<Longrightarrow>
     at q (JObj es') = at q (JObj es)"
proof (induction p arbitrary: es es' q)
  case Nil
  then show ?case by simp
next
  case (Cons p ps)
  from Cons.prems(2) obtain q1 qs where q: "q = q1 # qs" by (cases q) auto
  show ?case
  proof (cases ps)
    case Nil
    with Cons.prems q have "q1 \<noteq> p" by auto
    with Nil Cons.prems(1) q show ?thesis by (auto simp: map_of_js_assign_other)
  next
    case (Cons p2 ps2)
    from Cons.prems(1) obtain ces ces' where c: "set_path ps s ces = Inr ces'"
      and m: "map_of es' = (map_of es)(p \<mapsto> JObj ces')"
      and o: "map_of es p = Some (JObj ces) \<or> (ces = [] \<and> (\<forall>xs. map_of es p \<noteq> Some (JObj xs)))"
      unfolding Cons by (rule set_path_shape)
    show ?thesis
    proof (cases "q1 = p")
      case False
      with m q show ?thesis by simp
    next
      case True
      with Cons.prems(2,3) q have n: "\<not> is_prefix qs ps" "\<not> is_prefix ps qs" by auto
      then obtain q2 qs2 where qs: "qs = q2 # qs2" by (cases qs) auto
      from Cons.IH [OF c n] have "at qs (JObj ces') = at qs (JObj ces)" .
      moreover have "at qs (JObj ces) = at (p # qs) (JObj es)"
        using o qs by (cases "map_of es p") (auto simp: at_Cons_non_object)
      ultimately show ?thesis using m q True by simp
    qed
  qed
qed

section \<open>Re-nesting a flat map\<close>

lemma split_dot_nonempty [simp]: "split_dot s \<noteq> []"
  by (induction s) (auto split: list.splits)

lemma nest_foldl: "nest flat = foldl nest_step (Inr (JObj [])) flat"
  by (simp add: nest_def nest_step_def [abs_def])

lemma is_prefix_refl [simp]: "is_prefix p p"
  by (induction p) auto

lemma set_path_nothing_else:
  assumes s: "set_path p v es = Inr es'" and p: "p \<noteq> []" "''__proto__'' \<notin> set p"
    and n: "at q (JObj es') \<noteq> None"
  shows "is_prefix q p \<or> at q (JObj es) \<noteq> None"
proof (cases "is_prefix q p \<or> is_prefix p q")
  case False
  with set_path_at_other [OF s, of q] n show ?thesis by simp
next
  case True
  show ?thesis
  proof (cases "is_prefix q p")
    case True
    then show ?thesis ..
  next
    case False
    with True obtain r where r: "q = p @ r" by (auto simp: is_prefix_iff)
    with False have "r \<noteq> []" by auto
    then obtain r1 rs where "r = r1 # rs" by (cases r) auto
    with r set_path_at_self [OF s p] n show ?thesis by (simp add: at_append)
  qed
qed

lemma nest_fold_step:
  assumes t: "str_tree (JObj es)"
    and pr: "''__proto__'' \<notin> set (split_dot (fst e))"
    and inc: "\<forall>x \<in> S. \<not> is_prefix (split_dot (fst e)) (fst x) \<and> \<not> is_prefix (fst x) (split_dot (fst e))"
    and h: "holds_leaves S (JObj es)" and n: "nothing_else S (JObj es)"
  shows "\<exists>es'. nest_step (Inr (JObj es)) e = Inr (JObj es') \<and> str_tree (JObj es')
           \<and> holds_leaves (insert (path_of e) S) (JObj es')
           \<and> nothing_else (insert (path_of e) S) (JObj es')"
proof -
  define p where "p = split_dot (fst e)"
  have p: "p \<noteq> []" "''__proto__'' \<notin> set p" using pr by (simp_all add: p_def)
  from set_path_str_tree [OF t p(2), of "snd e"] obtain es' where
    s: "set_path p (snd e) es = Inr es'" and t': "str_tree (JObj es')" by blast
  have step: "nest_step (Inr (JObj es)) e = Inr (JObj es')"
    using s by (simp add: nest_step_def setNestedValue_def p_def)
  have "holds_leaves (insert (path_of e) S) (JObj es')"
    unfolding holds_leaves_def
  proof
    fix x assume "x \<in> insert (path_of e) S"
    then show "at (fst x) (JObj es') = Some (JStr (snd x))"
    proof
      assume "x = path_of e"
      with set_path_at_self [OF s p] show ?thesis by (simp add: path_of_def p_def)
    next
      assume x: "x \<in> S"
      with inc have "\<not> is_prefix (fst x) p" "\<not> is_prefix p (fst x)" by (auto simp: p_def)
      from set_path_at_other [OF s this] h x show ?thesis by (simp add: holds_leaves_def)
    qed
  qed
  moreover have "nothing_else (insert (path_of e) S) (JObj es')"
    unfolding nothing_else_def
  proof (intro allI impI)
    fix q assume "at q (JObj es') \<noteq> None"
    from set_path_nothing_else [OF s p this]
    show "q = [] \<or> (\<exists>x \<in> insert (path_of e) S. is_prefix q (fst x))"
    proof
      assume "is_prefix q p"
      then show ?thesis by (simp add: path_of_def p_def)
    next
      assume "at q (JObj es) \<noteq> None"
      with n show ?thesis by (auto simp: nothing_else_def)
    qed
  qed
  ultimately show ?thesis using step t' by blast
qed

lemma nest_fold:
  assumes "str_tree (JObj es)"
    and "\<forall>e \<in> set L. ''__proto__'' \<notin> set (split_dot (fst e))"
    and "distinct (map fst L)"
    and "\<forall>e \<in> set L. \<forall>e' \<in> set L. fst e \<noteq> fst e' \<longrightarrow>
           \<not> is_prefix (split_dot (fst e)) (split_dot (fst e'))"
    and "\<forall>e \<in> set L. \<forall>x \<in> S.
           \<not> is_prefix (split_dot (fst e)) (fst x) \<and> \<not> is_prefix (fst x) (split_dot (fst e))"
    and "holds_leaves S (JObj es)" and "nothing_else S (JObj es)"
  shows "\<exists>es'. foldl nest_step (Inr (JObj es)) L = Inr (JObj es') \<and> str_tree (JObj es')
           \<and> holds_leaves (S \<union> path_of ` set L) (JObj es')
           \<and> nothing_else (S \<union> path_of ` set L) (JObj es')"
  using assms
proof (induction L arbitrary: es S)
  case Nil
  then show ?case by simp
next
  case (Cons e L)
  from Cons.prems(5) have inc: "\<forall>x \<in> S. \<not> is_prefix (split_dot (fst e)) (fst x)
      \<and> \<not> is_prefix (fst x) (split_dot (fst e))" by simp
  from nest_fold_step [OF Cons.prems(1) _ inc Cons.prems(6,7)] Cons.prems(2)
  obtain es1 where s1: "nest_step (Inr (JObj es)) e = Inr (JObj es1)" and t1: "str_tree (JObj es1)"
    and h1: "holds_leaves (insert (path_of e) S) (JObj es1)"
    and n1: "nothing_else (insert (path_of e) S) (JObj es1)" by auto
  have "fst e \<notin> fst ` set L" using Cons.prems(3) by simp
  then have d: "\<forall>e' \<in> set L. fst e' \<noteq> fst e" by (metis imageI)
  have i1: "\<forall>e' \<in> set L. \<forall>x \<in> insert (path_of e) S.
           \<not> is_prefix (split_dot (fst e')) (fst x) \<and> \<not> is_prefix (fst x) (split_dot (fst e'))"
  proof (intro ballI)
    fix e' x assume e': "e' \<in> set L" and x: "x \<in> insert (path_of e) S"
    show "\<not> is_prefix (split_dot (fst e')) (fst x) \<and> \<not> is_prefix (fst x) (split_dot (fst e'))"
    proof (cases "x = path_of e")
      case True
      with e' d Cons.prems(4) show ?thesis by (auto simp: path_of_def)
    next
      case False
      with x have "x \<in> S" by simp
      with e' Cons.prems(5) show ?thesis by simp
    qed
  qed
  from Cons.IH [OF t1 _ _ _ i1 h1 n1] Cons.prems(2,3,4)
  obtain es' where "foldl nest_step (Inr (JObj es1)) L = Inr (JObj es')" "str_tree (JObj es')"
    "holds_leaves (insert (path_of e) S \<union> path_of ` set L) (JObj es')"
    "nothing_else (insert (path_of e) S \<union> path_of ` set L) (JObj es')" by auto
  with s1 show ?case by auto
qed

section \<open>Responses of the HTTP endpoint\<close>












text \<open>
  An object sent as the key converts to a property name through its \<^verbatim>\<open>toString\<close>: with
  an own \<^verbatim>\<open>toString\<close> the conversion throws and the answer is 400, and a throw while the
  languages are handled keeps what was written before it.
\<close>

lemma handleRequest_key_without_primitive:
  "snd (snd (handleRequest ascii_le
     \<lparr>req_method = POST, req_url = Some ''/locales/en-US/common'',
      req_body = Some (JObj [(''key'', JObj [(''toString'', JNum ''1'')])])\<rparr> one_language_world))
     = Response 400 (Some invalid_body)"
  by (simp add: run_simps one_language_world_def)

section \<open>The import of a folder\<close>

lemma strip_json_iff: "strip_json name = Some ns \<longleftrightarrow> name = ns @ ''.json''"
proof
  assume "strip_json name = Some ns"
  then obtain r where "rev name = CHR ''n'' # CHR ''o'' # CHR ''s'' # CHR ''j'' # CHR ''.'' # r"
    and "ns = rev r"
    by (auto simp: strip_json_def split: list.splits if_splits)
  then have "rev (rev name) = rev (CHR ''n'' # CHR ''o'' # CHR ''s'' # CHR ''j'' # CHR ''.'' # rev ns)"
    by simp
  then show "name = ns @ ''.json''" by simp
next
  assume "name = ns @ ''.json''"
  then show "strip_json name = Some ns" by (simp add: strip_json_def)
qed

lemma endsWith_iff: "endsWith name suffix \<longleftrightarrow> (\<exists>ns. name = ns @ suffix)"
proof
  assume e: "endsWith name suffix"
  then have "drop (length name - length suffix) name = suffix" by (simp add: endsWith_def)
  then have "take (length name - length suffix) name @ suffix = name"
    using append_take_drop_id [of "length name - length suffix" name] by simp
  then show "\<exists>ns. name = ns @ suffix" by metis
next
  assume "\<exists>ns. name = ns @ suffix"
  then show "endsWith name suffix" by (auto simp: endsWith_def)
qed

lemma basename_json_append: "basename_json (ns @ ''.json'') = ns"
  by (simp add: basename_json_def endsWith_def)

lemma scanJsonFiles_json_entries: "scanJsonFiles readdir dir = json_entries readdir dir"
proof -
  have "map (\<lambda>name. \<lparr>absolutePath = path_join dir name, namespace = basename_json name\<rparr>)
          (filter (\<lambda>name. endsWith name ''.json'') (map d_name xs))
        = concat (map (\<lambda>x. case strip_json (d_name x) of
                         Some ns \<Rightarrow> [\<lparr>absolutePath = path_join dir (ns @ ''.json''), namespace = ns\<rparr>]
                       | None \<Rightarrow> []) xs)" for xs
  proof (induction xs)
    case Nil
    then show ?case by simp
  next
    case (Cons x xs)
    show ?case
    proof (cases "strip_json (d_name x)")
      case None
      have "\<not> endsWith (d_name x) ''.json''"
      proof
        assume "endsWith (d_name x) ''.json''"
        then obtain ns where "d_name x = ns @ ''.json''" unfolding endsWith_iff ..
        then have "strip_json (d_name x) = Some ns" by (simp only: strip_json_iff)
        with None show False by simp
      qed
      with None Cons show ?thesis by simp
    next
      case (Some ns)
      then have n: "d_name x = ns @ ''.json''" by (simp only: strip_json_iff)
      then have e: "endsWith (d_name x) ''.json''" by (simp add: endsWith_def)
      from n have b: "basename_json (d_name x) = ns" by (simp only: basename_json_append)
      from Some e b Cons show ?thesis by (simp add: n [symmetric])
    qed
  qed
  then show ?thesis by (simp only: scanJsonFiles_def json_entries_def)
qed

lemma json_entries_namespace_files:
  assumes "\<forall>x \<in> set (readdir dir). strip_json (d_name x) \<noteq> None \<longrightarrow> d_kind x = RegularFile"
  shows "json_entries readdir dir = namespace_files readdir dir"
proof -
  have "(case strip_json (d_name x) of
           Some ns \<Rightarrow> [\<lparr>absolutePath = path_join dir (ns @ ''.json''), namespace = ns\<rparr>]
         | None \<Rightarrow> [])
      = (case strip_json (d_name x) of
           Some ns \<Rightarrow> if d_kind x = RegularFile
                      then [\<lparr>absolutePath = path_join dir (ns @ ''.json''), namespace = ns\<rparr>] else []
         | None \<Rightarrow> [])" if "x \<in> set (readdir dir)" for x
    using assms that by (cases "strip_json (d_name x)") auto
  then show ?thesis
    unfolding json_entries_def namespace_files_def
    by (intro arg_cong [where f = concat] map_cong refl)
qed

lemma entry_languages_namespaced:
  assumes "json_names_are_files readdir rootPath"
  shows "entry_languages readdir rootPath = namespaced_languages readdir rootPath"
proof -
  have "json_entries readdir (path_join rootPath (d_name e))
        = namespace_files readdir (path_join rootPath (d_name e))"
    if "e \<in> set (readdir rootPath)" and "d_kind e = Directory" and "LOCALE_REGEX (d_name e)" for e
    using assms that unfolding json_names_are_files_def
    by (intro json_entries_namespace_files) blast
  then have f: "filter (\<lambda>e. d_kind e = Directory \<and> LOCALE_REGEX (d_name e)
                  \<and> json_entries readdir (path_join rootPath (d_name e)) \<noteq> []) (readdir rootPath)
        = filter (\<lambda>e. d_kind e = Directory \<and> LOCALE_REGEX (d_name e)
                  \<and> namespace_files readdir (path_join rootPath (d_name e)) \<noteq> []) (readdir rootPath)"
    by (intro filter_cong refl) auto
  show ?thesis
    unfolding entry_languages_def namespaced_languages_def f
    using \<open>\<And>e. \<lbrakk>e \<in> set (readdir rootPath); d_kind e = Directory; LOCALE_REGEX (d_name e)\<rbrakk>
           \<Longrightarrow> json_entries readdir (path_join rootPath (d_name e))
        = namespace_files readdir (path_join rootPath (d_name e))\<close>
    by (intro map_cong refl) auto
qed

lemma importFolder_scans:
  assumes "\<not> canceled result" and "filePaths result = rootPath # others"
  shows "importFolder readdir result w =
           detected rootPath (entry_languages readdir rootPath) (flat_languages readdir rootPath) w"
proof -
  have n: "scan_namespaced readdir rootPath (readdir rootPath) [] = entry_languages readdir rootPath"
    by (simp add: scan_namespaced_eq entry_languages_def scanJsonFiles_json_entries)
  have f: "scan_flat rootPath (readdir rootPath) [] = flat_languages readdir rootPath"
    by (simp add: scan_flat_eq flat_languages_def)
  show ?thesis
  proof (cases "entry_languages readdir rootPath = []")
    case True
    with assms n f show ?thesis
      by (simp add: importFolder_def detected_def Let_def)
  next
    case False
    with assms n show ?thesis
      by (simp add: importFolder_def detected_def Let_def)
  qed
qed

lemmas import_simps =
  namespaced_languages_def flat_languages_def entry_languages_def json_entries_def
  namespace_files_def strip_json_def json_names_are_files_def detected_def
  example_readdir_def odd_readdir_def scanJsonFiles_def
  LOCALE_REGEX_def LOCALE_JSON_REGEX_def is_lower_def is_upper_def endsWith_def
  basename_json_def path_join_def empty_world_def no_settings_def Let_def

text \<open>
  A locale directory \<open>en-US\<close> that holds only a subdirectory named \<open>d.json\<close>, beside a file
  \<open>en-US.json\<close>: the directory listing gives names only, so the import takes \<open>d.json\<close> for a
  namespace file and answers namespaced, where the scan for files finds none in \<open>en-US\<close> and
  the flat scan finds \<open>en-US.json\<close>.
\<close>

theorem importFolder_counts_directory:
  "fst (importFolder odd_readdir \<lparr>canceled = False, filePaths = [''/odd'']\<rparr> empty_world)
     = Some \<lparr>rootFolder = Some ''/odd'',
             languages =
               [\<lparr>code = ''en-US'',
                 files = [\<lparr>absolutePath = ''/odd/en-US/d.json'', namespace = ''d''\<rparr>]\<rparr>],
             folderStructure = Namespaced\<rparr>
   \<and> namespaced_languages odd_readdir ''/odd'' = []
   \<and> flat_languages odd_readdir ''/odd''
     = [\<lparr>code = ''en-US'',
         files = [\<lparr>absolutePath = ''/odd/en-US.json'', namespace = ''default''\<rparr>]\<rparr>]
   \<and> importFolder odd_readdir \<lparr>canceled = False, filePaths = [''/odd'']\<rparr> empty_world
     \<noteq> detected ''/odd'' (namespaced_languages odd_readdir ''/odd'')
         (flat_languages odd_readdir ''/odd'') empty_world"
  by (simp add: importFolder_def import_simps)

text \<open>
  C7. When a folder was chosen, the import saves and returns the settings that the detection
  gives from two scans of that folder: the scan for the locale-named subdirectories that hold
  an entry named \<open><namespace>.json\<close>, with one File per such entry, and the scan for the
  top-level files named \<open><locale>.json\<close>. Where every such entry inside the locale-named
  subdirectories is a regular file, the first scan is the scan for namespace files of the
  specification. The settings configured before play no part, and nothing else in the world
  changes.
\<close>

theorem importFolder_detects_mode:
  assumes "\<not> canceled result" and "filePaths result = rootPath # others"
  shows "importFolder readdir result w =
           detected rootPath (entry_languages readdir rootPath) (flat_languages readdir rootPath) w
         \<and> (json_names_are_files readdir rootPath \<longrightarrow>
              importFolder readdir result w =
                detected rootPath (namespaced_languages readdir rootPath)
                  (flat_languages readdir rootPath) w)"
  using importFolder_scans [OF assms] entry_languages_namespaced [of readdir rootPath]
  by simp

theorem importFolder_detects_mode_witness:
  "json_names_are_files example_readdir ''/proj''
   \<and> importFolder example_readdir \<lparr>canceled = False, filePaths = [''/proj'']\<rparr> flat_world
     = detected ''/proj'' (namespaced_languages example_readdir ''/proj'')
         (flat_languages example_readdir ''/proj'') flat_world
   \<and> fst (importFolder example_readdir \<lparr>canceled = False, filePaths = [''/proj'']\<rparr> flat_world)
     = Some \<lparr>rootFolder = Some ''/proj'',
             languages =
               [\<lparr>code = ''en-US'',
                 files = [\<lparr>absolutePath = ''/proj/en-US/common.json'', namespace = ''common''\<rparr>]\<rparr>,
                \<lparr>code = ''fr-FR'',
                 files = [\<lparr>absolutePath = ''/proj/fr-FR/common.json'', namespace = ''common''\<rparr>]\<rparr>],
             folderStructure = Namespaced\<rparr>
   \<and> json_names_are_files example_readdir ''/flat''
   \<and> fst (importFolder example_readdir \<lparr>canceled = False, filePaths = [''/flat'']\<rparr> flat_world)
     = Some \<lparr>rootFolder = Some ''/flat'',
             languages =
               [\<lparr>code = ''en-US'',
                 files = [\<lparr>absolutePath = ''/flat/en-US.json'', namespace = ''default''\<rparr>]\<rparr>,
                \<lparr>code = ''fr-FR'',
                 files = [\<lparr>absolutePath = ''/flat/fr-FR.json'', namespace = ''default''\<rparr>]\<rparr>],
             folderStructure = Flat\<rparr>
   \<and> json_names_are_files example_readdir ''/nothing''
   \<and> fst (importFolder example_readdir \<lparr>canceled = False, filePaths = [''/nothing'']\<rparr> flat_world)
     = Some \<lparr>rootFolder = Some ''/nothing'', languages = [], folderStructure = Namespaced\<rparr>"
  using importFolder_detects_mode [of "\<lparr>canceled = False, filePaths = [''/proj'']\<rparr>" "''/proj''" "[]"
          example_readdir flat_world]
        importFolder_detects_mode [of "\<lparr>canceled = False, filePaths = [''/flat'']\<rparr>" "''/flat''" "[]"
          example_readdir flat_world]
        importFolder_detects_mode [of "\<lparr>canceled = False, filePaths = [''/nothing'']\<rparr>" "''/nothing''" "[]"
          example_readdir flat_world]
  by (simp add: import_simps)

end
